theory Spec2Isabelle
  imports Complex_Main "HOL-Library.Word"
begin

unbundle bit_operations_syntax

section \<open>The playback hook: frontend/src/lib/useAudioPlayback.js\<close>

text \<open>
  The hook keeps two pieces of React state (\<open>isPlaying\<close>, \<open>isMuted\<close>) and six refs.
  All of them are fields of one record that every callback takes and returns. A ref that
  holds an object the model only tests for presence (\<open>audioContextRef\<close>) is a boolean.

  The audio output is part of the record as well: \<open>playingSources\<close> are the
  \<open>AudioBufferSourceNode\<close>s that \<open>source.start(0)\<close> has started and that have not ended
  yet, oldest first, and \<open>startedBuffers\<close> logs every buffer ever started, in start order.
  No callback of the hook reads these two fields; they are what a listener observes.
\<close>

type_synonym pcm = "8 word list"

record audio_buffer =
  channelData :: "real list"
  sampleRate :: nat

record audio_element =
  src :: string
  paused :: bool
  currentTime :: nat

record playback =
  isPlaying :: bool
  isMuted :: bool
  audioContextRef :: bool
  audioPlayerRef :: "audio_element option"
  pcmQueueRef :: "pcm list"
  isReceivingPcmRef :: bool
  isProcessingPcmRef :: bool
  pcmSampleRateRef :: nat
  playingSources :: "audio_buffer list"
  startedBuffers :: "audio_buffer list"

text \<open>
  What the hook asks of the browser and cannot be read from the repository: \<open>atob\<close>
  (\<open>None\<close> when it throws on a string that is not base64), whether
  \<open>audioContext.createBuffer(1, n, rate)\<close> accepts \<open>n\<close> frames at \<open>rate\<close> (it throws
  otherwise), and whether \<open>new AudioContext()\<close> succeeds.
\<close>

record browser =
  atob :: "string \<Rightarrow> pcm option"
  createBuffer_ok :: "nat \<Rightarrow> nat \<Rightarrow> bool"
  newAudioContext_ok :: bool

datatype exn = NotSupportedError

subsection \<open>initAudioContext, startPcmStream\<close>

definition initAudioContext :: "browser \<Rightarrow> playback \<Rightarrow> bool \<times> playback" where
  "initAudioContext B s =
     (if \<not> audioContextRef s then
        (if newAudioContext_ok B then (True, s\<lparr>audioContextRef := True\<rparr>) else (False, s))
      else (True, s))"

text \<open>\<open>startPcmStream(sampleRate = 24000)\<close>: \<open>None\<close> is a call without the argument.\<close>

definition startPcmStream :: "browser \<Rightarrow> nat option \<Rightarrow> playback \<Rightarrow> bool \<times> playback" where
  "startPcmStream B sampleRate_arg s =
     (if isMuted s then (False, s)
      else
        (case initAudioContext B s of
           (False, s1) \<Rightarrow> (False, s1)
         | (True, s1) \<Rightarrow>
             (True, s1\<lparr>pcmSampleRateRef := (case sampleRate_arg of None \<Rightarrow> 24000 | Some r \<Rightarrow> r),
                       isReceivingPcmRef := True,
                       pcmQueueRef := [],
                       isProcessingPcmRef := False,
                       isPlaying := True\<rparr>)))"

subsection \<open>convertPcmToAudioBuffer\<close>

text \<open>
  One loop iteration: \<open>(pcmData[offset] & 0xff) | ((pcmData[offset + 1] & 0xff) << 8)\<close>,
  then the conversion to a float. The bytes come from a \<open>Uint8Array\<close>; the bitwise
  operators work on integers that stay below \<open>2^16\<close> here, so \<open>int\<close> is exact. The
  division is the one of the reals: the rounding of the result to a binary float is not
  modelled.
\<close>

definition pcm_sample :: "8 word \<Rightarrow> 8 word \<Rightarrow> int" where
  "pcm_sample lo hi = (uint lo AND 0xff) OR push_bit 8 (uint hi AND 0xff)"

definition sample_to_float :: "int \<Rightarrow> real" where
  "sample_to_float sample =
     (if sample \<ge> 0x8000 then - 1 + real_of_int (sample AND 0x7fff) / 0x8000
      else real_of_int sample / 0x7fff)"

text \<open>
  The \<open>for\<close> loop over \<open>numSamples = pcmData.length / 2\<close>. With an odd length the last
  round reads one byte past the array and writes one float past the buffer, which a typed
  array ignores: a trailing single byte yields no sample.
\<close>

fun pcm_samples :: "pcm \<Rightarrow> real list" where
  "pcm_samples (lo # hi # rest) = sample_to_float (pcm_sample lo hi) # pcm_samples rest"
| "pcm_samples [lo] = []"
| "pcm_samples [] = []"

definition convertPcmToAudioBuffer ::
    "browser \<Rightarrow> playback \<Rightarrow> pcm \<Rightarrow> exn + audio_buffer option" where
  "convertPcmToAudioBuffer B s pcmData =
     (if \<not> audioContextRef s then Inr None
      else
        (let numSamples = length pcmData div 2 in
         if \<not> createBuffer_ok B numSamples (pcmSampleRateRef s) then Inl NotSupportedError
         else Inr (Some \<lparr>channelData = pcm_samples pcmData,
                         sampleRate = pcmSampleRateRef s\<rparr>)))"

subsection \<open>processPcmQueue\<close>

text \<open>
  \<open>processPcmQueue\<close> is an async function. The model splits it at its one \<open>await\<close>:
  \<open>processPcmQueue\<close> is the part that runs at the call, up to \<open>source.start(0)\<close>, and
  \<open>processPcmQueue_resume\<close> is the part that runs when the playback promise resolves.
  The \<open>catch\<close> branch calls \<open>processPcmQueue\<close> again on a queue that is one chunk
  shorter.
\<close>

function processPcmQueue :: "browser \<Rightarrow> playback \<Rightarrow> playback" where
  "processPcmQueue B s =
     (if pcmQueueRef s = [] \<or> isProcessingPcmRef s \<or> \<not> audioContextRef s then s
      else
        (let pcmData = hd (pcmQueueRef s);
             s1 = s\<lparr>isProcessingPcmRef := True, pcmQueueRef := tl (pcmQueueRef s)\<rparr>
         in case convertPcmToAudioBuffer B s1 pcmData of
              Inr None \<Rightarrow> s1\<lparr>isProcessingPcmRef := False\<rparr>
            | Inr (Some audioBuffer) \<Rightarrow>
                s1\<lparr>playingSources := playingSources s1 @ [audioBuffer],
                   startedBuffers := startedBuffers s1 @ [audioBuffer]\<rparr>
            | Inl e \<Rightarrow>
                (if pcmQueueRef s1 \<noteq> []
                 then processPcmQueue B (s1\<lparr>isProcessingPcmRef := False\<rparr>)
                 else s1\<lparr>isProcessingPcmRef := False\<rparr>)))"
  by pat_completeness auto

termination
  by (relation "measure (\<lambda>(B, s). length (pcmQueueRef s))") auto

definition processPcmQueue_resume :: "browser \<Rightarrow> playback \<Rightarrow> playback" where
  "processPcmQueue_resume B s =
     (let s1 = s\<lparr>isProcessingPcmRef := False\<rparr> in
      if pcmQueueRef s1 \<noteq> [] then processPcmQueue B s1
      else if pcmQueueRef s1 = [] \<and> \<not> isReceivingPcmRef s1 then s1\<lparr>isPlaying := False\<rparr>
      else s1)"

subsection \<open>endPcmStream, processPcmChunk, interruptPlayback, toggleMute\<close>

definition endPcmStream :: "browser \<Rightarrow> playback \<Rightarrow> playback" where
  "endPcmStream B s =
     (let s1 = s\<lparr>isReceivingPcmRef := False\<rparr> in
      if pcmQueueRef s1 \<noteq> [] \<and> \<not> isProcessingPcmRef s1 then processPcmQueue B s1 else s1)"

definition processPcmChunk :: "browser \<Rightarrow> string \<Rightarrow> playback \<Rightarrow> playback" where
  "processPcmChunk B base64data s =
     (if isMuted s \<or> \<not> isReceivingPcmRef s then s
      else
        (case atob B base64data of
           None \<Rightarrow> s
         | Some bytes \<Rightarrow>
             (let s1 = s\<lparr>pcmQueueRef := pcmQueueRef s @ [bytes]\<rparr> in
              if \<not> isProcessingPcmRef s1 then processPcmQueue B s1 else s1)))"

definition interruptPlayback :: "playback \<Rightarrow> bool \<times> playback" where
  "interruptPlayback s =
     (if isPlaying s then
        (let s1 = (case audioPlayerRef s of
                     None \<Rightarrow> s
                   | Some a \<Rightarrow> s\<lparr>audioPlayerRef := Some (a\<lparr>paused := True, currentTime := 0\<rparr>)\<rparr>)
         in (True, s1\<lparr>isReceivingPcmRef := False,
                      pcmQueueRef := [],
                      isProcessingPcmRef := False,
                      isPlaying := False\<rparr>))
      else (False, s))"

definition toggleMute :: "playback \<Rightarrow> bool \<times> playback" where
  "toggleMute s =
     (let newMuted = \<not> isMuted s;
          s1 = s\<lparr>isMuted := newMuted\<rparr>
      in (newMuted, if newMuted \<and> isPlaying s1 then snd (interruptPlayback s1) else s1))"

subsection \<open>The hook driven by events\<close>

text \<open>
  What reaches the hook: the three stream messages that \<open>ChatInterface\<close> dispatches to
  \<open>startPcmStream\<close>, \<open>endPcmStream\<close> and \<open>processPcmChunk\<close>, the two user actions, and
  the resolution of a playback promise. \<open>PlaybackEnded i\<close> is the end of the \<open>i\<close>-th source
  that is still playing (its \<open>onended\<close>, or the timer set to the buffer's duration plus
  50 ms): the source leaves the output and the rest of its \<open>processPcmQueue\<close> call runs.
\<close>

datatype pb_event =
    AudioStreamStart "nat option"
  | AudioStreamEnd
  | AudioChunk string
  | PlaybackEnded nat
  | InterruptClick
  | MuteClick

fun pb_step :: "browser \<Rightarrow> playback \<Rightarrow> pb_event \<Rightarrow> playback" where
  "pb_step B s (AudioStreamStart r) = snd (startPcmStream B r s)"
| "pb_step B s AudioStreamEnd = endPcmStream B s"
| "pb_step B s (AudioChunk d) = processPcmChunk B d s"
| "pb_step B s (PlaybackEnded i) =
     (if i < length (playingSources s)
      then processPcmQueue_resume B
             (s\<lparr>playingSources := take i (playingSources s) @ drop (Suc i) (playingSources s)\<rparr>)
      else s)"
| "pb_step B s InterruptClick = snd (interruptPlayback s)"
| "pb_step B s MuteClick = snd (toggleMute s)"

definition pb_run :: "browser \<Rightarrow> playback \<Rightarrow> pb_event list \<Rightarrow> playback" where
  "pb_run B s es = foldl (pb_step B) s es"

text \<open>The buffer a chunk decodes to at a sample rate, and whether the browser takes it.\<close>

definition buffer_of :: "nat \<Rightarrow> pcm \<Rightarrow> audio_buffer" where
  "buffer_of rate c = \<lparr>channelData = pcm_samples c, sampleRate = rate\<rparr>"

definition playable :: "browser \<Rightarrow> nat \<Rightarrow> pcm \<Rightarrow> bool" where
  "playable B rate c = createBuffer_ok B (length c div 2) rate"

text \<open>
  Within one stream the hook is single-flight: \<open>isProcessingPcmRef\<close> is set exactly while
  a source plays, at most one source plays, and chunks wait in the queue only while one
  does.
\<close>

definition stream_inv :: "playback \<Rightarrow> bool" where
  "stream_inv s \<longleftrightarrow>
     audioContextRef s \<and> length (playingSources s) \<le> 1 \<and>
     (isProcessingPcmRef s \<longleftrightarrow> playingSources s \<noteq> []) \<and>
     (pcmQueueRef s = [] \<or> playingSources s \<noteq> [])"

definition drained :: "playback \<Rightarrow> bool" where
  "drained s \<longleftrightarrow> \<not> isReceivingPcmRef s \<and> pcmQueueRef s = [] \<and> playingSources s = []"

fun stream_event :: "pb_event \<Rightarrow> bool" where
  "stream_event (AudioChunk d) = True"
| "stream_event AudioStreamEnd = True"
| "stream_event (PlaybackEnded i) = True"
| "stream_event _ = False"

text \<open>The chunks a run of stream events enqueues: those that arrive while the stream is
  receiving and that \<open>atob\<close> decodes.\<close>

fun accepted1 :: "browser \<Rightarrow> bool \<Rightarrow> pb_event \<Rightarrow> pcm list" where
  "accepted1 B recv (AudioChunk d) =
     (if recv then (case atob B d of None \<Rightarrow> [] | Some c \<Rightarrow> [c]) else [])"
| "accepted1 B recv _ = []"

fun accepted :: "browser \<Rightarrow> bool \<Rightarrow> pb_event list \<Rightarrow> pcm list" where
  "accepted B recv [] = []"
| "accepted B recv (e # es) =
     accepted1 B recv e @ accepted B (recv \<and> e \<noteq> AudioStreamEnd) es"

definition step_post :: "browser \<Rightarrow> playback \<Rightarrow> pcm list \<Rightarrow> bool \<Rightarrow> playback \<Rightarrow> bool" where
  "step_post B s new recv t \<longleftrightarrow>
     stream_inv t \<and> \<not> isMuted t \<and> pcmSampleRateRef t = pcmSampleRateRef s \<and>
     isReceivingPcmRef t = recv \<and>
     (isPlaying t \<or> drained t) \<and>
     (\<exists>k \<le> length (pcmQueueRef s @ new).
        startedBuffers t = startedBuffers s @
          map (buffer_of (pcmSampleRateRef s)) (take k (pcmQueueRef s @ new)) \<and>
        pcmQueueRef t = drop k (pcmQueueRef s @ new))"

subsection \<open>A browser and two states to run the hook on\<close>

text \<open>
  \<open>demo_browser\<close> decodes three base64 strings as \<open>atob\<close> does (\<open>AAE=\<close> is the bytes
  00 01, \<open>/38=\<close> is FF 7F, \<open>AIA=\<close> is 00 80), and takes any buffer of at least one frame
  at 8000 to 96000 Hz.
\<close>

definition demo_browser :: browser where
  "demo_browser =
     \<lparr>atob = (\<lambda>x. if x = ''AAE='' then Some [0, 1]
                  else if x = ''/38='' then Some [0xff, 0x7f]
                  else if x = ''AIA='' then Some [0, 0x80]
                  else None),
      createBuffer_ok = (\<lambda>n r. 1 \<le> n \<and> 8000 \<le> r \<and> r \<le> 96000),
      newAudioContext_ok = True\<rparr>"

definition demo_idle :: playback where
  "demo_idle =
     \<lparr>isPlaying = False, isMuted = False, audioContextRef = True,
      audioPlayerRef = Some \<lparr>src = [], paused = True, currentTime = 0\<rparr>,
      pcmQueueRef = [], isReceivingPcmRef = False, isProcessingPcmRef = False,
      pcmSampleRateRef = 24000, playingSources = [], startedBuffers = []\<rparr>"

definition demo_playing :: playback where
  "demo_playing =
     demo_idle\<lparr>isPlaying := True, isReceivingPcmRef := True, isProcessingPcmRef := True,
               pcmQueueRef := [[0xff, 0x7f]],
               playingSources := [buffer_of 24000 [0, 1]],
               startedBuffers := [buffer_of 24000 [0, 1]]\<rparr>"

text \<open>
  A stream of three chunks in which the first chunk has finished before the third arrives,
  the state the hook is in after it (the third chunk is playing), and the state after that
  chunk has finished as well.
\<close>

definition demo_stream :: "pb_event list" where
  "demo_stream =
     [AudioChunk ''AAE='', AudioChunk ''/38='', PlaybackEnded 0, AudioChunk ''AIA='',
      AudioStreamEnd, PlaybackEnded 0]"

definition demo_last_chunk :: playback where
  "demo_last_chunk =
     demo_idle\<lparr>isPlaying := True, isProcessingPcmRef := True,
       playingSources := [buffer_of 24000 [0, 0x80]],
       startedBuffers :=
         [buffer_of 24000 [0, 1], buffer_of 24000 [0xff, 0x7f], buffer_of 24000 [0, 0x80]]\<rparr>"

definition demo_done :: playback where
  "demo_done =
     demo_idle\<lparr>startedBuffers :=
         [buffer_of 24000 [0, 1], buffer_of 24000 [0xff, 0x7f], buffer_of 24000 [0, 0x80]]\<rparr>"


section \<open>The connection hook: useWebSocket\<close>

text \<open>
  The repository holds the hook twice. \<open>frontend/src/lib/useWebSocket.js\<close> builds the
  socket URL from a host (\<open>NEXT_PUBLIC_WS_HOST\<close>, \<open>NEXT_PUBLIC_API_URL\<close>, else
  \<open>localhost:8001\<close>); the other file reads a gateway URL (\<open>NEXT_PUBLIC_WS_GATEWAY\<close>),
  sends a ping when the socket opens and puts a reason for the close code into the status.
  The names below end in \<open>_host\<close> and \<open>_gateway\<close>; \<open>sendMessage\<close> is the same text
  in both files.

  The state of the hook is its React state (\<open>isConnected\<close>, \<open>status\<close>,
  \<open>reconnectAttempts\<close>) and \<open>socketRef\<close>. Sockets are objects that the ref, the browser
  and the handlers share, so they live in a store: \<open>sockets\<close> holds every socket
  \<open>new WebSocket\<close> has constructed, and \<open>socketRef\<close> is an index into it. \<open>timers\<close>
  are the pending \<open>setTimeout\<close> calls.

  \<open>connect\<close> is \<open>useCallback(..., [reconnectAttempts])\<close>: a closure over the value that
  \<open>reconnectAttempts\<close> had in the render that created it. The handlers it installs on a
  socket read that same value, and \<open>setTimeout(connect, reconnectInterval)\<close> inside the
  close handler names that same closure. So \<open>connect\<close> and the handlers take the captured
  value as their first argument; a socket records it in \<open>seen_attempts\<close> and a timer in
  \<open>connect_of\<close>.
\<close>

datatype ready_state = CONNECTING | OPEN | CLOSING | CLOSED

datatype command =
    Text_query string
  | Audio_data string
  | Interrupt_speech
  | Toggle_listen bool
  | Toggle_mute bool
  | Ping nat

record web_socket =
  url :: string
  readyState :: ready_state
  seen_attempts :: nat
  sent :: "string list"

record timer =
  delay :: nat
  connect_of :: nat
  of_effect :: bool

record close_event =
  wasClean :: bool
  code :: nat

record ws_hook =
  isConnected :: bool
  status :: string
  reconnectAttempts :: nat
  socketRef :: "nat option"
  sockets :: "web_socket list"
  timers :: "timer list"

text \<open>
  What the hook reads from its environment: the three variables of \<open>process.env\<close>
  (\<open>None\<close> when unset), \<open>window.location.protocol\<close>, the host that \<open>new URL(s)\<close> finds
  (\<open>None\<close> when the constructor throws), whether \<open>new WebSocket(url)\<close> accepts the URL
  (it throws otherwise), \<open>JSON.stringify\<close> on the commands the client sends, and the clock.
\<close>

record ws_env =
  NEXT_PUBLIC_WS_GATEWAY :: "string option"
  NEXT_PUBLIC_WS_HOST :: "string option"
  NEXT_PUBLIC_API_URL :: "string option"
  location_protocol :: string
  URL_host :: "string \<Rightarrow> string option"
  WebSocket_accepts :: "string \<Rightarrow> bool"
  JSON_stringify :: "command \<Rightarrow> string"
  Date_now :: nat

definition maxReconnectAttempts :: nat where
  "maxReconnectAttempts = 5"

definition reconnectInterval :: nat where
  "reconnectInterval = 3000"

text \<open>A number in a template literal.\<close>

definition digit :: "nat \<Rightarrow> char" where
  "digit d = ''0123456789'' ! d"

function string_of_nat :: "nat \<Rightarrow> string" where
  "string_of_nat n = (if n < 10 then [digit n] else string_of_nat (n div 10) @ [digit (n mod 10)])"
  by pat_completeness auto
termination
  by (relation "measure id") auto

subsection \<open>The socket store\<close>

text \<open>\<open>socketRef.current.readyState\<close>, and \<open>socket.close()\<close>, which starts the closing
  handshake of a socket that is open or connecting and does nothing otherwise.\<close>

definition current_readyState :: "ws_hook \<Rightarrow> ready_state option" where
  "current_readyState s =
     (case socketRef s of
        None \<Rightarrow> None
      | Some i \<Rightarrow> if i < length (sockets s) then Some (readyState (sockets s ! i)) else None)"

definition socket_close :: "nat \<Rightarrow> ws_hook \<Rightarrow> ws_hook" where
  "socket_close i s =
     (if i < length (sockets s) \<and> readyState (sockets s ! i) \<in> {OPEN, CONNECTING}
      then s\<lparr>sockets := (sockets s)[i := (sockets s ! i)\<lparr>readyState := CLOSING\<rparr>]\<rparr>
      else s)"

definition socket_send :: "nat \<Rightarrow> string \<Rightarrow> ws_hook \<Rightarrow> ws_hook" where
  "socket_send i frame s =
     s\<lparr>sockets := (sockets s)[i := (sockets s ! i)\<lparr>sent := sent (sockets s ! i) @ [frame]\<rparr>]\<rparr>"

definition new_WebSocket :: "string \<Rightarrow> nat \<Rightarrow> ws_hook \<Rightarrow> ws_hook" where
  "new_WebSocket wsUrl k s =
     s\<lparr>sockets := sockets s @
          [\<lparr>url = wsUrl, readyState = CONNECTING, seen_attempts = k, sent = []\<rparr>],
       socketRef := Some (length (sockets s))\<rparr>"

text \<open>Every frame written to any socket.\<close>

definition frames_written :: "ws_hook \<Rightarrow> string list" where
  "frames_written s = concat (map sent (sockets s))"

subsection \<open>connect\<close>

text \<open>The block "Close existing socket if open" of both files.\<close>

definition close_existing :: "ws_hook \<Rightarrow> ws_hook" where
  "close_existing s =
     (case socketRef s of
        None \<Rightarrow> s
      | Some i \<Rightarrow>
          if current_readyState s = Some OPEN \<or> current_readyState s = Some CONNECTING
          then socket_close i s else s)"

text \<open>The file that reads the gateway URL. \<open>process.env.NEXT_PUBLIC_WS_GATEWAY || ''\<close> is
  empty for an unset and for an empty variable.\<close>

definition connect_gateway :: "nat \<Rightarrow> ws_env \<Rightarrow> string \<Rightarrow> ws_hook \<Rightarrow> ws_hook" where
  "connect_gateway k E clientId s =
     (let apiGateway = (case NEXT_PUBLIC_WS_GATEWAY E of None \<Rightarrow> [] | Some g \<Rightarrow> g) in
      if apiGateway = [] then s\<lparr>status := ''Configuration error''\<rparr>
      else
        (let wsUrl = apiGateway @ ''?client_id='' @ clientId;
             s1 = close_existing s
         in if WebSocket_accepts E wsUrl then new_WebSocket wsUrl k s1
            else s1\<lparr>status := ''Connection error''\<rparr>))"

text \<open>\<open>frontend/src/lib/useWebSocket.js\<close>, in a browser (\<open>window\<close> is defined).
  \<open>str_includes\<close> is \<open>String.prototype.includes\<close>.\<close>

fun str_includes :: "string \<Rightarrow> string \<Rightarrow> bool" where
  "str_includes [] sub = (sub = [])"
| "str_includes (c # cs) sub = (take (length sub) (c # cs) = sub \<or> str_includes cs sub)"

definition getHostFromUrl :: "ws_env \<Rightarrow> string option \<Rightarrow> string" where
  "getHostFromUrl E urlString =
     (case urlString of
        None \<Rightarrow> []
      | Some u \<Rightarrow>
          if u = [] then []
          else if str_includes u ''://''
          then (case URL_host E u of Some h \<Rightarrow> h | None \<Rightarrow> u)
          else u)"

definition connect_host :: "nat \<Rightarrow> ws_env \<Rightarrow> string \<Rightarrow> ws_hook \<Rightarrow> ws_hook" where
  "connect_host k E clientId s =
     (let h1 = getHostFromUrl E (NEXT_PUBLIC_WS_HOST E);
          h2 = getHostFromUrl E (NEXT_PUBLIC_API_URL E);
          apiHost = (if h1 \<noteq> [] then h1 else if h2 \<noteq> [] then h2 else ''localhost:8001'');
          wsProtocol = (if location_protocol E = ''https:'' then ''wss:'' else ''ws:'');
          wsUrl = wsProtocol @ ''//'' @ apiHost @ ''/ws/'' @ clientId;
          s1 = close_existing s
      in if wsUrl = [] then s1
         else if WebSocket_accepts E wsUrl then new_WebSocket wsUrl k s1
         else s1\<lparr>status := ''Connection error''\<rparr>)"

subsection \<open>The handlers that connect installs\<close>

text \<open>\<open>socket.onopen\<close>; the gateway file also sends a ping on the socket it has just
  opened.\<close>

definition onopen_host :: "ws_hook \<Rightarrow> ws_hook" where
  "onopen_host s = s\<lparr>isConnected := True, status := ''Connected'', reconnectAttempts := 0\<rparr>"

definition onopen_gateway :: "ws_env \<Rightarrow> nat \<Rightarrow> ws_hook \<Rightarrow> ws_hook" where
  "onopen_gateway E i s =
     socket_send i (JSON_stringify E (Ping (Date_now E)))
       (s\<lparr>isConnected := True, status := ''Connected'', reconnectAttempts := 0\<rparr>)"

text \<open>The \<open>switch\<close> on \<open>event.code\<close>.\<close>

definition closeReason :: "nat \<Rightarrow> string" where
  "closeReason c =
     (if c = 1000 then ''Normal closure''
      else if c = 1001 then ''Going away''
      else if c = 1002 then ''Protocol error''
      else if c = 1003 then ''Unsupported data''
      else if c = 1005 then ''No status received''
      else if c = 1006 then ''Abnormal closure - check server logs''
      else if c = 1007 then ''Invalid frame payload data''
      else if c = 1008 then ''Policy violation''
      else if c = 1009 then ''Message too big''
      else if c = 1010 then ''Mandatory extension missing''
      else if c = 1011 then ''Internal server error''
      else if c = 1012 then ''Service restart''
      else if c = 1013 then ''Try again later''
      else if c = 1014 then ''Bad gateway''
      else if c = 1015 then ''TLS handshake failure''
      else ''Unknown reason'')"

text \<open>
  \<open>socket.onclose\<close>. Its \<open>reconnectAttempts\<close> is the captured value \<open>k\<close>, not the field
  of the state, and the timer it sets calls the \<open>connect\<close> of the same render.
\<close>

definition onclose_gateway :: "nat \<Rightarrow> close_event \<Rightarrow> ws_hook \<Rightarrow> ws_hook" where
  "onclose_gateway k event s =
     (let s1 = s\<lparr>isConnected := False\<rparr> in
      if \<not> wasClean event \<and> k < maxReconnectAttempts then
        (let newAttempts = k + 1 in
         s1\<lparr>reconnectAttempts := newAttempts,
            status := ''Reconnecting ('' @ string_of_nat newAttempts @ ''/'' @
                      string_of_nat maxReconnectAttempts @ '')...'',
            timers := timers s1 @
              [\<lparr>delay = reconnectInterval, connect_of = k, of_effect = False\<rparr>]\<rparr>)
      else if k \<ge> maxReconnectAttempts then
        s1\<lparr>status := ''Connection failed ('' @ closeReason (code event) @ '')''\<rparr>
      else s1\<lparr>status := ''Disconnected ('' @ closeReason (code event) @ '')''\<rparr>)"

definition onclose_host :: "nat \<Rightarrow> close_event \<Rightarrow> ws_hook \<Rightarrow> ws_hook" where
  "onclose_host k event s =
     (let s1 = s\<lparr>isConnected := False\<rparr> in
      if \<not> wasClean event \<and> k < maxReconnectAttempts then
        (let newAttempts = k + 1 in
         s1\<lparr>reconnectAttempts := newAttempts,
            status := ''Reconnecting ('' @ string_of_nat newAttempts @ ''/'' @
                      string_of_nat maxReconnectAttempts @ '')...'',
            timers := timers s1 @
              [\<lparr>delay = reconnectInterval, connect_of = k, of_effect = False\<rparr>]\<rparr>)
      else if k \<ge> maxReconnectAttempts then s1\<lparr>status := ''Connection failed''\<rparr>
      else s1\<lparr>status := ''Disconnected''\<rparr>)"

definition onerror :: "ws_hook \<Rightarrow> ws_hook" where
  "onerror s = s\<lparr>status := ''Connection error''\<rparr>"

subsection \<open>sendMessage\<close>

definition sendMessage :: "ws_env \<Rightarrow> command \<Rightarrow> ws_hook \<Rightarrow> bool \<times> ws_hook" where
  "sendMessage E message s =
     (case socketRef s of
        None \<Rightarrow> (False, s)
      | Some i \<Rightarrow>
          if current_readyState s = Some OPEN
          then (True, socket_send i (JSON_stringify E message) s)
          else (False, s))"

subsection \<open>The hook driven by events\<close>

text \<open>
  The effect of the hook, \<open>useEffect(..., [connect])\<close>, calls \<open>connect\<close> 100 ms after the
  mount, and again after every render in which \<open>connect\<close> is a new closure, that is
  whenever \<open>reconnectAttempts\<close> has changed. Before it runs again its cleanup clears its
  own pending timer and closes the socket of \<open>socketRef\<close>.
\<close>

definition effect_cleanup :: "ws_hook \<Rightarrow> ws_hook" where
  "effect_cleanup s =
     (let s1 = s\<lparr>timers := filter (\<lambda>t. \<not> of_effect t) (timers s)\<rparr> in
      case socketRef s1 of None \<Rightarrow> s1 | Some i \<Rightarrow> socket_close i s1)"

definition effect_setup :: "ws_hook \<Rightarrow> ws_hook" where
  "effect_setup s =
     s\<lparr>timers := timers s @
          [\<lparr>delay = 100, connect_of = reconnectAttempts s, of_effect = True\<rparr>]\<rparr>"

definition rerender :: "nat \<Rightarrow> ws_hook \<Rightarrow> ws_hook" where
  "rerender before s =
     (if reconnectAttempts s = before then s else effect_setup (effect_cleanup s))"

definition mounted :: ws_hook where
  "mounted =
     effect_setup
       \<lparr>isConnected = False, status = ''Initializing...'', reconnectAttempts = 0,
        socketRef = None, sockets = [], timers = []\<rparr>"

text \<open>
  The events: a pending timer fires and calls its \<open>connect\<close>, which draws a client id;
  the browser opens a socket that was connecting, closes a socket, or reports an error on
  one. The browser sets \<open>readyState\<close> before it calls the handler.
\<close>

datatype variant = Gateway | Host

datatype ws_event =
    TimerFires nat string
  | SocketOpens nat
  | SocketCloses nat close_event
  | SocketErrors nat

definition connect :: "variant \<Rightarrow> nat \<Rightarrow> ws_env \<Rightarrow> string \<Rightarrow> ws_hook \<Rightarrow> ws_hook" where
  "connect v = (case v of Gateway \<Rightarrow> connect_gateway | Host \<Rightarrow> connect_host)"

definition onopen :: "variant \<Rightarrow> ws_env \<Rightarrow> nat \<Rightarrow> ws_hook \<Rightarrow> ws_hook" where
  "onopen v E i s = (case v of Gateway \<Rightarrow> onopen_gateway E i s | Host \<Rightarrow> onopen_host s)"

definition onclose :: "variant \<Rightarrow> nat \<Rightarrow> close_event \<Rightarrow> ws_hook \<Rightarrow> ws_hook" where
  "onclose v = (case v of Gateway \<Rightarrow> onclose_gateway | Host \<Rightarrow> onclose_host)"

definition set_readyState :: "nat \<Rightarrow> ready_state \<Rightarrow> ws_hook \<Rightarrow> ws_hook" where
  "set_readyState i r s = s\<lparr>sockets := (sockets s)[i := (sockets s ! i)\<lparr>readyState := r\<rparr>]\<rparr>"

fun ws_step :: "variant \<Rightarrow> ws_env \<Rightarrow> ws_hook \<Rightarrow> ws_event \<Rightarrow> ws_hook" where
  "ws_step v E s (TimerFires j clientId) =
     (if j < length (timers s)
      then connect v (connect_of (timers s ! j)) E clientId
             (s\<lparr>timers := take j (timers s) @ drop (Suc j) (timers s)\<rparr>)
      else s)"
| "ws_step v E s (SocketOpens i) =
     (if i < length (sockets s) \<and> readyState (sockets s ! i) = CONNECTING
      then rerender (reconnectAttempts s) (onopen v E i (set_readyState i OPEN s))
      else s)"
| "ws_step v E s (SocketCloses i event) =
     (if i < length (sockets s) \<and> readyState (sockets s ! i) \<noteq> CLOSED
      then rerender (reconnectAttempts s)
             (onclose v (seen_attempts (sockets s ! i)) event (set_readyState i CLOSED s))
      else s)"
| "ws_step v E s (SocketErrors i) = (if i < length (sockets s) then onerror s else s)"

definition ws_run :: "variant \<Rightarrow> ws_env \<Rightarrow> ws_hook \<Rightarrow> ws_event list \<Rightarrow> ws_hook" where
  "ws_run v E s es = foldl (ws_step v E) s es"

subsection \<open>An environment and a run with the server down\<close>

text \<open>
  \<open>demo_env\<close> has the gateway and the host configured; \<open>unset_env\<close> has no variable
  set. \<open>abnormal\<close> is the close event of a connection that failed or dropped.
  \<open>server_down\<close> is what the hook sees from its mount on when no connection can be
  made: six times a timer of the effect calls \<open>connect\<close> and the new socket closes
  abnormally. \<open>first_retry\<close> continues it: the 3000 ms timer that the first close set
  fires, and its socket closes abnormally as well.
\<close>

definition demo_env :: ws_env where
  "demo_env =
     \<lparr>NEXT_PUBLIC_WS_GATEWAY = Some ''wss://gw.example/prod'',
      NEXT_PUBLIC_WS_HOST = Some ''api.example:8001'',
      NEXT_PUBLIC_API_URL = None,
      location_protocol = ''https:'',
      URL_host = (\<lambda>u. None),
      WebSocket_accepts = (\<lambda>u. True),
      JSON_stringify = (\<lambda>c. case c of
          Text_query t \<Rightarrow> ''text_query '' @ t
        | Audio_data a \<Rightarrow> ''audio_data '' @ a
        | Interrupt_speech \<Rightarrow> ''interrupt_speech''
        | Toggle_listen b \<Rightarrow> ''toggle_listen''
        | Toggle_mute b \<Rightarrow> ''toggle_mute''
        | Ping n \<Rightarrow> ''ping''),
      Date_now = 0\<rparr>"

definition unset_env :: ws_env where
  "unset_env =
     demo_env\<lparr>NEXT_PUBLIC_WS_GATEWAY := None, NEXT_PUBLIC_WS_HOST := None,
              location_protocol := ''http:''\<rparr>"

definition abnormal :: close_event where
  "abnormal = \<lparr>wasClean = False, code = 1006\<rparr>"

definition server_down :: "ws_event list" where
  "server_down =
     [TimerFires 0 ''c0'', SocketCloses 0 abnormal,
      TimerFires 1 ''c1'', SocketCloses 1 abnormal,
      TimerFires 2 ''c2'', SocketCloses 2 abnormal,
      TimerFires 3 ''c3'', SocketCloses 3 abnormal,
      TimerFires 4 ''c4'', SocketCloses 4 abnormal,
      TimerFires 5 ''c5'', SocketCloses 5 abnormal]"

definition first_retry :: "ws_event list" where
  "first_retry = [TimerFires 0 ''c6'', SocketCloses 6 abnormal]"

text \<open>The state at the end of \<open>server_down\<close>: six closed sockets, five pending retries.\<close>

definition failed_state :: "string \<Rightarrow> string \<Rightarrow> ws_hook" where
  "failed_state prefix shown =
     \<lparr>isConnected = False, status = shown, reconnectAttempts = 5, socketRef = Some 5,
      sockets = map (\<lambda>i. \<lparr>url = prefix @ ''c'' @ string_of_nat i, readyState = CLOSED,
                            seen_attempts = i, sent = []\<rparr>) [0..<6],
      timers = map (\<lambda>i. \<lparr>delay = 3000, connect_of = i, of_effect = False\<rparr>) [0..<5]\<rparr>"


section \<open>The recording hook and the chat component\<close>

subsection \<open>toggleRecording of useAudioRecording\<close>

text \<open>
  The recording hook: its React state, the recorder (\<open>None\<close> before the first recording,
  then its \<open>state\<close>), the microphone stream of \<open>streamRef\<close> (\<open>Some True\<close> while its
  tracks are live) and the chunks collected so far. \<open>getUserMedia\<close> returns a promise:
  \<open>startRecording\<close> only issues the request, and what its \<open>then\<close> does is a later
  event. \<open>mediaDevices\<close> says whether \<open>navigator.mediaDevices\<close> exists.
\<close>

datatype recorder_state = Inactive | Recording | Paused

record recording =
  isRecording :: bool
  isListening :: bool
  mediaRecorderRef :: "recorder_state option"
  streamRef :: "bool option"
  audioChunksRef :: "string list"
  getUserMedia_requests :: nat

definition startRecording :: "bool \<Rightarrow> recording \<Rightarrow> recording" where
  "startRecording mediaDevices s =
     (if isRecording s \<or> \<not> mediaDevices then s
      else s\<lparr>getUserMedia_requests := Suc (getUserMedia_requests s)\<rparr>)"

definition stopRecording :: "recording \<Rightarrow> recording" where
  "stopRecording s =
     (let s1 = s\<lparr>isListening := False, isRecording := False\<rparr>;
          s2 = (case mediaRecorderRef s1 of
                  None \<Rightarrow> s1
                | Some st \<Rightarrow> if st \<noteq> Inactive then s1\<lparr>mediaRecorderRef := Some Inactive\<rparr> else s1)
      in case streamRef s2 of None \<Rightarrow> s2 | Some live \<Rightarrow> s2\<lparr>streamRef := None\<rparr>)"

definition toggleRecording :: "bool \<Rightarrow> recording \<Rightarrow> recording" where
  "toggleRecording mediaDevices s =
     (if isRecording s then stopRecording s else startRecording mediaDevices s)"

subsection \<open>ChatInterface\<close>

text \<open>
  The component (in \<open>frontend/src/app/page.js\<close>) holds the three hooks and its own state.
  A chat message is its role, its content and the error flag. \<open>TapToSpeak\<close> gets
  \<open>toggleRecording\<close> of the recording hook as its click handler, and is disabled while
  the hook is not connected.
\<close>

record chat =
  inputText :: string
  chatMessages :: "(string \<times> string \<times> bool) list"
  webSocket :: ws_hook
  audioPlayback :: playback
  audioRecording :: recording

definition addMessage :: "string \<Rightarrow> string \<Rightarrow> bool \<Rightarrow> chat \<Rightarrow> chat" where
  "addMessage role content isError c =
     c\<lparr>chatMessages := chatMessages c @ [(role, content, isError)]\<rparr>"

definition sendTextQuery :: "ws_env \<Rightarrow> string \<Rightarrow> chat \<Rightarrow> chat" where
  "sendTextQuery E query c =
     (if query = [] \<or> \<not> isConnected (webSocket c) then c
      else
        (let c1 = (if isPlaying (audioPlayback c)
                   then c\<lparr>audioPlayback := snd (interruptPlayback (audioPlayback c)),
                          webSocket := snd (sendMessage E Interrupt_speech (webSocket c))\<rparr>
                   else c);
             c2 = addMessage ''user'' query False c1;
             c3 = c2\<lparr>webSocket := snd (sendMessage E (Text_query query) (webSocket c2))\<rparr>
         in c3\<lparr>inputText := []\<rparr>))"

definition handleInterrupt :: "ws_env \<Rightarrow> chat \<Rightarrow> chat" where
  "handleInterrupt E c =
     (if isPlaying (audioPlayback c)
      then c\<lparr>audioPlayback := snd (interruptPlayback (audioPlayback c)),
             webSocket := snd (sendMessage E Interrupt_speech (webSocket c))\<rparr>
      else c)"

definition TapToSpeak_onClick :: "bool \<Rightarrow> chat \<Rightarrow> chat" where
  "TapToSpeak_onClick mediaDevices c =
     (if \<not> isConnected (webSocket c) then c
      else c\<lparr>audioRecording := toggleRecording mediaDevices (audioRecording c)\<rparr>)"

text \<open>A connected hook with an open socket, and a chat whose assistant is speaking.\<close>

definition demo_open :: ws_hook where
  "demo_open =
     \<lparr>isConnected = True, status = ''Connected'', reconnectAttempts = 0, socketRef = Some 0,
      sockets = [\<lparr>url = ''wss://gw.example/prod?client_id=c0'', readyState = OPEN,
                  seen_attempts = 0, sent = [''ping'']\<rparr>],
      timers = []\<rparr>"

definition demo_chat :: chat where
  "demo_chat =
     \<lparr>inputText = ''Count customers'', chatMessages = [],
      webSocket = demo_open, audioPlayback = demo_playing,
      audioRecording = \<lparr>isRecording = False, isListening = False, mediaRecorderRef = None,
                         streamRef = None, audioChunksRef = [], getUserMedia_requests = 0\<rparr>\<rparr>"

section \<open>The legacy client: old\_frontend/static/js/previous\_app.js\<close>

text \<open>
  The legacy page keeps \<open>reconnectAttempts\<close> in a variable that its close handler reads
  and increments in place. Of the page the model keeps the counter, the status, the
  pending retry timers (their delays), the system messages and \<open>isRecording\<close>. After its
  three branches the handler stops a running recording: \<open>stopRecording\<close> clears
  \<open>isRecording\<close> and ends in \<open>setStatus('Connected')\<close>; its \<open>toggle_listen\<close> frame is not
  sent, the socket being closed. The model leaves out the recorder itself and that the
  handler disables the controls.
\<close>

record legacy_client =
  l_reconnectAttempts :: nat
  l_status :: string
  l_timers :: "nat list"
  l_systemMessages :: "string list"
  l_isRecording :: bool

definition stopRecording_legacy :: "legacy_client \<Rightarrow> legacy_client" where
  "stopRecording_legacy s = s\<lparr>l_isRecording := False, l_status := ''Connected''\<rparr>"

definition onclose_legacy :: "close_event \<Rightarrow> legacy_client \<Rightarrow> legacy_client" where
  "onclose_legacy event s =
     (let s1 =
        (if \<not> wasClean event \<and> l_reconnectAttempts s < maxReconnectAttempts then
           s\<lparr>l_reconnectAttempts := l_reconnectAttempts s + 1,
             l_status := ''Reconnecting ('' @ string_of_nat (l_reconnectAttempts s + 1) @ ''/'' @
                         string_of_nat maxReconnectAttempts @ '')...'',
             l_timers := l_timers s @ [reconnectInterval]\<rparr>
         else if l_reconnectAttempts s \<ge> maxReconnectAttempts then
           s\<lparr>l_status := ''Connection failed'',
             l_systemMessages := l_systemMessages s @
               [''Could not reconnect to server. Please reload the page.'']\<rparr>
         else if wasClean event then
           s\<lparr>l_status := ''Disconnected'',
             l_systemMessages := l_systemMessages s @ [''Connection closed cleanly.'']\<rparr>
         else s)
      in if l_isRecording s1 then stopRecording_legacy s1 else s1)"

definition onopen_legacy :: "legacy_client \<Rightarrow> legacy_client" where
  "onopen_legacy s = s\<lparr>l_status := ''Connected'', l_reconnectAttempts := 0\<rparr>"

definition closes_legacy :: "legacy_client \<Rightarrow> close_event list \<Rightarrow> legacy_client" where
  "closes_legacy s events = foldl (\<lambda>s event. onclose_legacy event s) s events"

section \<open>An encoder for PCM\<close>

text \<open>
  Modelled from the spec: the encoder of float samples to 16-bit signed little-endian PCM.
  The repository only decodes PCM (\<open>convertPcmToAudioBuffer\<close>); the spec names the
  encoder as a function of the codec ("16-bit little-endian PCM to and from normalized
  float samples") and says nothing of how a sample is scaled or rounded. So the integer
  that the encoder makes of a sample is the parameter \<open>q\<close>; of the encoder the model
  fixes only the format: the integer is written as two bytes in two's complement, low
  byte first.
\<close>

definition int16_bytes :: "int \<Rightarrow> pcm" where
  "int16_bytes v = [word_of_int v, word_of_int (v div 256)]"

definition encode_pcm :: "(real \<Rightarrow> int) \<Rightarrow> real list \<Rightarrow> pcm" where
  "encode_pcm q xs = concat (map (\<lambda>x. int16_bytes (q x)) xs)"

text \<open>
  What the decoder of \<open>convertPcmToAudioBuffer\<close> makes of the two bytes that
  \<open>int16_bytes\<close> writes for \<open>v\<close>.
\<close>

definition decode_sample :: "int \<Rightarrow> real" where
  "decode_sample v = sample_to_float (pcm_sample (word_of_int v) (word_of_int (v div 256)))"

section \<open>Properties of the playback hook\<close>

declare processPcmQueue.simps [simp del]

lemma processPcmQueue_idle:
  "pcmQueueRef s = [] \<or> isProcessingPcmRef s \<or> \<not> audioContextRef s \<Longrightarrow> processPcmQueue B s = s"
  by (subst processPcmQueue.simps) simp

lemma processPcmQueue_start:
  assumes "audioContextRef s" "\<not> isProcessingPcmRef s" "pcmQueueRef s = c # q"
    and "playable B (pcmSampleRateRef s) c"
  shows "processPcmQueue B s =
           s\<lparr>isProcessingPcmRef := True, pcmQueueRef := q,
             playingSources := playingSources s @ [buffer_of (pcmSampleRateRef s) c],
             startedBuffers := startedBuffers s @ [buffer_of (pcmSampleRateRef s) c]\<rparr>"
  using assms
  by (subst processPcmQueue.simps)
     (simp add: convertPcmToAudioBuffer_def playable_def buffer_of_def Let_def)

lemma processPcmQueue_isPlaying [simp]:
  "isPlaying (processPcmQueue B s) = isPlaying s"
proof (induction B s rule: processPcmQueue.induct)
  case (1 B s)
  then show ?case
    by (subst processPcmQueue.simps) (auto simp: Let_def split: sum.splits option.splits)
qed

lemma processPcmQueue_isMuted [simp]:
  "isMuted (processPcmQueue B s) = isMuted s"
proof (induction B s rule: processPcmQueue.induct)
  case (1 B s)
  then show ?case
    by (subst processPcmQueue.simps) (auto simp: Let_def split: sum.splits option.splits)
qed

lemma processPcmQueue_isReceivingPcmRef [simp]:
  "isReceivingPcmRef (processPcmQueue B s) = isReceivingPcmRef s"
proof (induction B s rule: processPcmQueue.induct)
  case (1 B s)
  then show ?case
    by (subst processPcmQueue.simps) (auto simp: Let_def split: sum.splits option.splits)
qed

lemma pb_run_Nil [simp]: "pb_run B s [] = s"
  by (simp add: pb_run_def)

lemma pb_run_Cons [simp]: "pb_run B s (e # es) = pb_run B (pb_step B s e) es"
  by (simp add: pb_run_def)

lemma pb_run_append: "pb_run B s (es @ fs) = pb_run B (pb_run B s es) fs"
  by (simp add: pb_run_def)

text \<open>One stream event, from a single-flight state: the state after it, spelled out.\<close>

lemma step_chunk:
  assumes "stream_inv s" "\<not> isMuted s" "isReceivingPcmRef s" "atob B d = Some c"
    and "playable B (pcmSampleRateRef s) c"
  shows "processPcmChunk B d s =
     (if isProcessingPcmRef s then s\<lparr>pcmQueueRef := pcmQueueRef s @ [c]\<rparr>
      else s\<lparr>isProcessingPcmRef := True,
             playingSources := [buffer_of (pcmSampleRateRef s) c],
             startedBuffers := startedBuffers s @ [buffer_of (pcmSampleRateRef s) c]\<rparr>)"
proof (cases "isProcessingPcmRef s")
  case True
  with assms show ?thesis by (simp add: processPcmChunk_def)
next
  case False
  with assms(1) have q: "pcmQueueRef s = []" and ps: "playingSources s = []"
    by (auto simp: stream_inv_def)
  let ?s1 = "s\<lparr>pcmQueueRef := pcmQueueRef s @ [c]\<rparr>"
  have "processPcmQueue B ?s1 =
      ?s1\<lparr>isProcessingPcmRef := True, pcmQueueRef := [],
         playingSources := playingSources ?s1 @ [buffer_of (pcmSampleRateRef ?s1) c],
         startedBuffers := startedBuffers ?s1 @ [buffer_of (pcmSampleRateRef ?s1) c]\<rparr>"
    using assms(1,5) False q
    by (subst processPcmQueue_start [where c = c and q = "[]"]) (simp_all add: stream_inv_def)
  with assms False q ps show ?thesis
    by (cases s) (simp add: processPcmChunk_def Let_def)
qed

lemma step_end:
  assumes "stream_inv s"
  shows "endPcmStream B s = s\<lparr>isReceivingPcmRef := False\<rparr>"
  using assms by (auto simp: endPcmStream_def stream_inv_def Let_def)

lemma step_ended:
  assumes "stream_inv s" "i < length (playingSources s)"
    and "\<forall>c\<in>set (pcmQueueRef s). playable B (pcmSampleRateRef s) c"
  shows "pb_step B s (PlaybackEnded i) =
     (case pcmQueueRef s of
        [] \<Rightarrow> s\<lparr>playingSources := [], isProcessingPcmRef := False,
               isPlaying := isPlaying s \<and> isReceivingPcmRef s\<rparr>
      | c # q \<Rightarrow> s\<lparr>pcmQueueRef := q, isProcessingPcmRef := True,
                  playingSources := [buffer_of (pcmSampleRateRef s) c],
                  startedBuffers := startedBuffers s @ [buffer_of (pcmSampleRateRef s) c]\<rparr>)"
proof -
  from assms(1,2) obtain b where ps: "playingSources s = [b]" and i: "i = 0"
    by (cases "playingSources s") (auto simp: stream_inv_def)
  show ?thesis
  proof (cases "pcmQueueRef s")
    case Nil
    with ps i assms(1) show ?thesis
      by (cases s) (auto simp: processPcmQueue_resume_def stream_inv_def Let_def)
  next
    case (Cons c q)
    let ?s1 = "s\<lparr>playingSources := [], isProcessingPcmRef := False\<rparr>"
    have "processPcmQueue B ?s1 =
        ?s1\<lparr>isProcessingPcmRef := True, pcmQueueRef := q,
             playingSources := playingSources ?s1 @ [buffer_of (pcmSampleRateRef ?s1) c],
             startedBuffers := startedBuffers ?s1 @ [buffer_of (pcmSampleRateRef ?s1) c]\<rparr>"
      using assms Cons
      by (subst processPcmQueue_start [where c = c and q = q]) (simp_all add: stream_inv_def)
    with ps i Cons show ?thesis
      by (simp add: processPcmQueue_resume_def Let_def)
  qed
qed

lemma stream_step:
  assumes inv: "stream_inv s" and mu: "\<not> isMuted s" and ev: "stream_event e"
    and pl: "\<forall>c\<in>set (pcmQueueRef s @ accepted1 B (isReceivingPcmRef s) e).
               playable B (pcmSampleRateRef s) c"
    and play: "isPlaying s \<or> drained s"
  shows "step_post B s (accepted1 B (isReceivingPcmRef s) e)
           (isReceivingPcmRef s \<and> e \<noteq> AudioStreamEnd) (pb_step B s e)"
proof (cases e)
  case (AudioChunk d)
  have same: "step_post B s [] (isReceivingPcmRef s) s"
    using inv mu play unfolding step_post_def by (intro conjI exI [of _ 0]) simp_all
  show ?thesis
  proof (cases "isReceivingPcmRef s")
    case False
    then have "processPcmChunk B d s = s" by (simp add: processPcmChunk_def)
    with False AudioChunk same show ?thesis by simp
  next
    case recv: True
    with play have playing: "isPlaying s" by (simp add: drained_def)
    show ?thesis
    proof (cases "atob B d")
      case None
      then have "processPcmChunk B d s = s" by (simp add: processPcmChunk_def)
      with None recv AudioChunk same show ?thesis by simp
    next
      case (Some c)
      with pl recv AudioChunk have plc: "playable B (pcmSampleRateRef s) c" by simp
      note sc = step_chunk [OF inv mu recv Some plc]
      show ?thesis
      proof (cases "isProcessingPcmRef s")
        case True
        with sc inv mu recv playing Some AudioChunk show ?thesis
          unfolding step_post_def
          by (intro conjI exI [of _ 0]) (simp_all add: stream_inv_def)
      next
        case False
        with inv have "pcmQueueRef s = []" by (auto simp: stream_inv_def)
        with sc inv mu recv playing Some AudioChunk False show ?thesis
          unfolding step_post_def
          by (intro conjI exI [of _ 1]) (simp_all add: stream_inv_def)
      qed
    qed
  qed
next
  case AudioStreamEnd
  with step_end [OF inv, of B] inv mu play show ?thesis
    unfolding step_post_def
    by (intro conjI exI [of _ 0]) (auto simp: stream_inv_def drained_def)
next
  case (PlaybackEnded i)
  show ?thesis
  proof (cases "i < length (playingSources s)")
    case False
    with PlaybackEnded inv mu play show ?thesis
      unfolding step_post_def by (intro conjI exI [of _ 0]) simp_all
  next
    case True
    have plq: "\<forall>c\<in>set (pcmQueueRef s). playable B (pcmSampleRateRef s) c"
      using pl by simp
    note se = step_ended [OF inv True plq]
    show ?thesis
    proof (cases "pcmQueueRef s")
      case Nil
      with se PlaybackEnded inv mu play show ?thesis
        unfolding step_post_def
        by (intro conjI exI [of _ 0]) (auto simp: stream_inv_def drained_def)
    next
      case (Cons c q)
      with se PlaybackEnded inv mu play True show ?thesis
        unfolding step_post_def
        by (intro conjI exI [of _ 1]) (auto simp: stream_inv_def drained_def)
    qed
  qed
qed (use ev in simp_all)

lemma take_drop_compose:
  assumes "st1 = st0 @ map f (take k1 L)" and "st2 = st1 @ map f (take k2 (drop k1 L))"
    and "q2 = drop k2 (drop k1 L)"
  shows "st2 = st0 @ map f (take (k1 + k2) L) \<and> q2 = drop (k1 + k2) L"
  using assms by (simp add: take_add add.commute)

lemma step_post_trans:
  assumes 1: "step_post B s new1 recv1 t" and 2: "step_post B t new2 recv2 u"
  shows "step_post B s (new1 @ new2) recv2 u"
proof -
  let ?r = "pcmSampleRateRef s"
  define L1 where "L1 = pcmQueueRef s @ new1"
  define L where "L = pcmQueueRef s @ new1 @ new2"
  from 1 obtain k1 where k1: "k1 \<le> length L1"
    and st1: "startedBuffers t = startedBuffers s @ map (buffer_of ?r) (take k1 L1)"
    and q1: "pcmQueueRef t = drop k1 L1" and r1: "pcmSampleRateRef t = ?r"
    unfolding step_post_def L1_def by blast
  define L2 where "L2 = pcmQueueRef t @ new2"
  from 2 r1 obtain k2 where k2: "k2 \<le> length L2"
    and st2: "startedBuffers u = startedBuffers t @ map (buffer_of ?r) (take k2 L2)"
    and q2: "pcmQueueRef u = drop k2 L2"
    unfolding step_post_def L2_def by auto
  have L: "L = L1 @ new2" by (simp add: L_def L1_def)
  have L2: "L2 = drop k1 L" using q1 k1 by (simp add: L2_def L)
  have t1: "take k1 L1 = take k1 L" using k1 by (simp add: L)
  have len: "k1 + k2 \<le> length L" using k1 k2 L2 by (simp add: L)
  have "startedBuffers u = startedBuffers s @ map (buffer_of ?r) (take (k1 + k2) L) \<and>
        pcmQueueRef u = drop (k1 + k2) L"
    by (rule take_drop_compose [OF st1 [unfolded t1] st2 [unfolded L2] q2 [unfolded L2]])
  with len have "\<exists>k \<le> length L.
        startedBuffers u = startedBuffers s @ map (buffer_of ?r) (take k L) \<and>
        pcmQueueRef u = drop k L"
    by blast
  with 2 r1 show ?thesis unfolding step_post_def L_def by simp
qed

lemma step_post_playable:
  assumes "step_post B s new recv t"
    and "\<forall>c\<in>set (pcmQueueRef s @ new). playable B (pcmSampleRateRef s) c"
  shows "\<forall>c\<in>set (pcmQueueRef t). playable B (pcmSampleRateRef t) c"
proof -
  from assms(1) obtain k where "pcmQueueRef t = drop k (pcmQueueRef s @ new)"
    and "pcmSampleRateRef t = pcmSampleRateRef s"
    unfolding step_post_def by blast
  with assms(2) show ?thesis
    by (metis in_set_dropD)
qed

lemma stream_run:
  assumes "stream_inv s" and "\<not> isMuted s" and "\<forall>e\<in>set es. stream_event e"
    and "\<forall>c\<in>set (pcmQueueRef s @ accepted B (isReceivingPcmRef s) es).
           playable B (pcmSampleRateRef s) c"
    and "isPlaying s \<or> drained s"
  shows "step_post B s (accepted B (isReceivingPcmRef s) es)
           (isReceivingPcmRef s \<and> AudioStreamEnd \<notin> set es) (pb_run B s es)"
  using assms
proof (induction es arbitrary: s)
  case Nil
  then show ?case
    unfolding step_post_def by (intro conjI exI [of _ 0]) simp_all
next
  case (Cons e es)
  let ?t = "pb_step B s e"
  let ?a1 = "accepted1 B (isReceivingPcmRef s) e"
  have pl1: "\<forall>c\<in>set (pcmQueueRef s @ ?a1). playable B (pcmSampleRateRef s) c"
    using Cons.prems(4) by (auto simp del: accepted1.simps)
  have ev: "stream_event e" using Cons.prems(3) by simp
  note st = stream_step [OF Cons.prems(1,2) ev pl1 Cons.prems(5)]
  have rate: "pcmSampleRateRef ?t = pcmSampleRateRef s"
    and recv: "isReceivingPcmRef ?t = (isReceivingPcmRef s \<and> e \<noteq> AudioStreamEnd)"
    and inv: "stream_inv ?t" and mu: "\<not> isMuted ?t" and play: "isPlaying ?t \<or> drained ?t"
    using st unfolding step_post_def by simp_all
  have plt: "\<forall>c\<in>set (pcmQueueRef ?t). playable B (pcmSampleRateRef ?t) c"
    by (rule step_post_playable [OF st pl1])
  have pl2: "\<forall>c\<in>set (pcmQueueRef ?t @ accepted B (isReceivingPcmRef ?t) es).
               playable B (pcmSampleRateRef ?t) c"
    using Cons.prems(4) plt unfolding rate recv by (auto simp del: accepted1.simps)
  have evs: "\<forall>e\<in>set es. stream_event e" using Cons.prems(3) by simp
  note IH = Cons.IH [OF inv mu evs pl2 play]
  have "step_post B s (?a1 @ accepted B (isReceivingPcmRef ?t) es)
          (isReceivingPcmRef ?t \<and> AudioStreamEnd \<notin> set es) (pb_run B ?t es)"
    by (rule step_post_trans [OF st IH])
  then show ?case
    unfolding recv by (simp del: accepted1.simps add: conj_ac eq_commute [of AudioStreamEnd])
qed

lemma accepted_ended [simp]: "accepted B r (replicate n (PlaybackEnded i)) = []"
  by (induction n) simp_all

lemma ended_idle:
  "playingSources s = [] \<Longrightarrow> pb_run B s (replicate n (PlaybackEnded i)) = s"
  by (induction n) simp_all

lemma drain:
  assumes "stream_inv s" and "\<not> isMuted s" and "isPlaying s \<or> drained s"
    and "\<forall>c\<in>set (pcmQueueRef s). playable B (pcmSampleRateRef s) c"
    and "length (pcmQueueRef s) + length (playingSources s) \<le> n"
  shows "pcmQueueRef (pb_run B s (replicate n (PlaybackEnded 0))) = [] \<and>
         playingSources (pb_run B s (replicate n (PlaybackEnded 0))) = [] \<and>
         (isPlaying (pb_run B s (replicate n (PlaybackEnded 0))) \<longrightarrow>
            isReceivingPcmRef s \<or> playingSources s = [])"
  using assms
proof (induction n arbitrary: s)
  case 0
  then show ?case by simp
next
  case (Suc n)
  show ?case
  proof (cases "playingSources s")
    case Nil
    with Suc.prems(1) have "pcmQueueRef s = []" by (auto simp: stream_inv_def)
    with Nil show ?thesis by (simp add: ended_idle)
  next
    case (Cons b bs)
    let ?t = "pb_step B s (PlaybackEnded 0)"
    have pl1: "\<forall>c\<in>set (pcmQueueRef s @ accepted1 B (isReceivingPcmRef s) (PlaybackEnded 0)).
                 playable B (pcmSampleRateRef s) c"
      using Suc.prems(4) by simp
    have st: "step_post B s [] (isReceivingPcmRef s) ?t"
      using stream_step [OF Suc.prems(1,2) _ pl1 Suc.prems(3)] by simp
    have plt: "\<forall>c\<in>set (pcmQueueRef ?t). playable B (pcmSampleRateRef ?t) c"
      using step_post_playable [OF st] Suc.prems(4) by simp
    have inv: "stream_inv ?t" and mu: "\<not> isMuted ?t" and play: "isPlaying ?t \<or> drained ?t"
      and recv: "isReceivingPcmRef ?t = isReceivingPcmRef s"
      using st unfolding step_post_def by simp_all
    have lt: "0 < length (playingSources s)" using Cons by simp
    note se = step_ended [OF Suc.prems(1) lt Suc.prems(4)]
    show ?thesis
    proof (cases "pcmQueueRef s")
      case Nil
      then have t: "?t = s\<lparr>playingSources := [], isProcessingPcmRef := False,
                           isPlaying := isPlaying s \<and> isReceivingPcmRef s\<rparr>"
        using se by simp
      then have "playingSources ?t = []" by simp
      then have "pb_run B ?t (replicate n (PlaybackEnded 0)) = ?t" by (rule ended_idle)
      with t Nil Cons show ?thesis by simp
    next
      case q: (Cons c q)
      then have t: "?t = s\<lparr>pcmQueueRef := q, isProcessingPcmRef := True,
                  playingSources := [buffer_of (pcmSampleRateRef s) c],
                  startedBuffers := startedBuffers s @ [buffer_of (pcmSampleRateRef s) c]\<rparr>"
        using se by simp
      have len: "length (pcmQueueRef ?t) + length (playingSources ?t) \<le> n"
        using Suc.prems(5) Suc.prems(1) q Cons unfolding t by (simp add: stream_inv_def)
      note IH = Suc.IH [OF inv mu play plt len]
      have "isReceivingPcmRef ?t = isReceivingPcmRef s" "playingSources ?t \<noteq> []"
        unfolding t by simp_all
      with IH Cons show ?thesis by simp
    qed
  qed
qed

lemma startPcmStream_fresh:
  assumes "\<not> isMuted s0" and "audioContextRef s0 \<or> newAudioContext_ok B"
    and "playingSources s0 = []"
  shows "stream_inv (snd (startPcmStream B rate s0)) \<and>
         \<not> isMuted (snd (startPcmStream B rate s0)) \<and>
         isPlaying (snd (startPcmStream B rate s0)) \<and>
         isReceivingPcmRef (snd (startPcmStream B rate s0)) \<and>
         pcmQueueRef (snd (startPcmStream B rate s0)) = [] \<and>
         startedBuffers (snd (startPcmStream B rate s0)) = startedBuffers s0 \<and>
         pcmSampleRateRef (snd (startPcmStream B rate s0)) =
           (case rate of None \<Rightarrow> 24000 | Some n \<Rightarrow> n)"
  using assms
  by (auto simp: startPcmStream_def initAudioContext_def stream_inv_def)

lemma stream_in_order:
  assumes s0: "\<not> isMuted s0" "audioContextRef s0 \<or> newAudioContext_ok B"
      "playingSources s0 = []"
    and es: "\<forall>e\<in>set es. stream_event e"
    and r: "r = (case rate of None \<Rightarrow> 24000 | Some n \<Rightarrow> n)"
    and pl: "\<forall>c\<in>set (accepted B True es). playable B r c"
  shows "let t = pb_run B s0 (AudioStreamStart rate # es);
             chunks = map (buffer_of r) (accepted B True es);
             u = pb_run B t (replicate (Suc (length chunks)) (PlaybackEnded 0))
         in endPcmStream B t = t\<lparr>isReceivingPcmRef := False\<rparr> \<and>
            length (playingSources t) \<le> 1 \<and>
            (\<exists>k\<le>length chunks.
               startedBuffers t = startedBuffers s0 @ take k chunks \<and>
               length (pcmQueueRef t) = length chunks - k) \<and>
            (isPlaying t \<or>
               AudioStreamEnd \<in> set es \<and>
               startedBuffers t = startedBuffers s0 @ chunks \<and> playingSources t = []) \<and>
            startedBuffers u = startedBuffers s0 @ chunks \<and>
            playingSources u = [] \<and> pcmQueueRef u = [] \<and>
            (AudioStreamEnd \<in> set es \<and> playingSources t \<noteq> [] \<longrightarrow> \<not> isPlaying u)"
proof -
  define s1 where "s1 = snd (startPcmStream B rate s0)"
  define t where "t = pb_run B s1 es"
  define A where "A = accepted B True es"
  define n where "n = Suc (length A)"
  define u where "u = pb_run B t (replicate n (PlaybackEnded 0))"
  note fresh = startPcmStream_fresh [OF s0, of rate, folded s1_def]
  then have inv1: "stream_inv s1" and mu1: "\<not> isMuted s1" and play1: "isPlaying s1 \<or> drained s1"
    and recv1: "isReceivingPcmRef s1" and q1: "pcmQueueRef s1 = []"
    and st1: "startedBuffers s1 = startedBuffers s0" and r1: "pcmSampleRateRef s1 = r"
    by (simp_all add: r)
  have pl1: "\<forall>c\<in>set (pcmQueueRef s1 @ accepted B (isReceivingPcmRef s1) es).
               playable B (pcmSampleRateRef s1) c"
    using pl by (simp add: q1 recv1 r1)
  have post: "step_post B s1 A (AudioStreamEnd \<notin> set es) t"
    using stream_run [OF inv1 mu1 es pl1 play1] by (simp add: recv1 t_def A_def)
  then obtain k where k: "k \<le> length A"
    and stt: "startedBuffers t = startedBuffers s0 @ map (buffer_of r) (take k A)"
    and qt: "pcmQueueRef t = drop k A"
    unfolding step_post_def by (auto simp: q1 st1 r1)
  from post have invt: "stream_inv t" and mut: "\<not> isMuted t" and playt: "isPlaying t \<or> drained t"
    and recvt: "isReceivingPcmRef t = (AudioStreamEnd \<notin> set es)" and rt: "pcmSampleRateRef t = r"
    unfolding step_post_def by (simp_all add: r1)
  have plt: "\<forall>c\<in>set (pcmQueueRef t). playable B (pcmSampleRateRef t) c"
    using step_post_playable [OF post] pl1 by (simp add: q1 recv1 A_def)
  have c1: "endPcmStream B t = t\<lparr>isReceivingPcmRef := False\<rparr>"
    by (rule step_end [OF invt])
  have c2: "length (playingSources t) \<le> 1"
    using invt by (simp add: stream_inv_def)
  have c3: "\<exists>k\<le>length (map (buffer_of r) A).
               startedBuffers t = startedBuffers s0 @ take k (map (buffer_of r) A) \<and>
               length (pcmQueueRef t) = length (map (buffer_of r) A) - k"
    using k stt qt by (intro exI [of _ k]) (simp add: take_map)
  have c4: "isPlaying t \<or>
               AudioStreamEnd \<in> set es \<and>
               startedBuffers t = startedBuffers s0 @ map (buffer_of r) A \<and> playingSources t = []"
  proof (cases "isPlaying t")
    case False
    with playt have d: "drained t" by simp
    then have "drop k A = []" using qt by (simp add: drained_def)
    then have "take k A = A" using k by simp
    with d stt recvt show ?thesis by (simp add: drained_def)
  qed simp
  have len: "length (pcmQueueRef t) + length (playingSources t) \<le> n"
    using qt c2 by (simp add: n_def)
  note dr = drain [OF invt mut playt plt len, folded u_def]
  have esn: "\<forall>e\<in>set (replicate n (PlaybackEnded 0)). stream_event e" by simp
  have pln: "\<forall>c\<in>set (pcmQueueRef t @ accepted B (isReceivingPcmRef t) (replicate n (PlaybackEnded 0))).
               playable B (pcmSampleRateRef t) c"
    using plt by simp
  have "step_post B t [] (isReceivingPcmRef t) u"
    using stream_run [OF invt mut esn pln playt] by (simp add: u_def)
  then obtain j where "startedBuffers u = startedBuffers t @ map (buffer_of r) (take j (pcmQueueRef t))"
    and "pcmQueueRef u = drop j (pcmQueueRef t)"
    unfolding step_post_def by (auto simp: rt)
  with dr have stu: "startedBuffers u = startedBuffers t @ map (buffer_of r) (pcmQueueRef t)"
    by simp
  have c5: "startedBuffers u = startedBuffers s0 @ map (buffer_of r) A"
    unfolding stu stt qt by (simp flip: map_append)
  have c6: "AudioStreamEnd \<in> set es \<and> playingSources t \<noteq> [] \<longrightarrow> \<not> isPlaying u"
    using dr recvt by auto
  have T: "pb_run B s0 (AudioStreamStart rate # es) = t"
    by (simp add: t_def s1_def)
  have U: "pb_run B t (replicate (Suc (length (map (buffer_of r) A))) (PlaybackEnded 0)) = u"
    by (simp only: u_def n_def length_map)
  show ?thesis
    unfolding Let_def T A_def [symmetric] U
    using c1 c2 c3 c4 c5 c6 dr by blast
qed

lemma resume_stops_playing:
  "isPlaying s \<and> \<not> isPlaying (processPcmQueue_resume B s) \<longrightarrow>
     pcmQueueRef s = [] \<and> \<not> isReceivingPcmRef s"
  by (auto simp: processPcmQueue_resume_def Let_def split: if_splits)


text \<open>
  Once the playing flag is clear, the queue is empty and no stream is receiving, the hook
  starts no buffer until the next stream start.
\<close>

lemma quiet_step:
  assumes "\<not> isPlaying s" "pcmQueueRef s = []" "\<not> isReceivingPcmRef s"
    and "\<forall>r. e \<noteq> AudioStreamStart r"
  shows "\<not> isPlaying (pb_step B s e) \<and> pcmQueueRef (pb_step B s e) = [] \<and>
         \<not> isReceivingPcmRef (pb_step B s e) \<and>
         startedBuffers (pb_step B s e) = startedBuffers s \<and>
         length (playingSources (pb_step B s e)) \<le> length (playingSources s)"
  using assms
  by (cases e)
     (simp_all add: endPcmStream_def processPcmChunk_def processPcmQueue_resume_def
        interruptPlayback_def toggleMute_def Let_def)

lemma quiet_run:
  assumes "\<not> isPlaying s" "pcmQueueRef s = []" "\<not> isReceivingPcmRef s"
    and "\<forall>r. AudioStreamStart r \<notin> set es"
  shows "\<not> isPlaying (pb_run B s es) \<and> pcmQueueRef (pb_run B s es) = [] \<and>
         \<not> isReceivingPcmRef (pb_run B s es) \<and>
         startedBuffers (pb_run B s es) = startedBuffers s \<and>
         length (playingSources (pb_run B s es)) \<le> length (playingSources s)"
  using assms
proof (induction es arbitrary: s)
  case Nil
  then show ?case by simp
next
  case (Cons e es)
  have e: "\<forall>r. e \<noteq> AudioStreamStart r" and es: "\<forall>r. AudioStreamStart r \<notin> set es"
    using Cons.prems(4) by auto
  note st = quiet_step [OF Cons.prems(1-3) e, of B]
  from st have q: "\<not> isPlaying (pb_step B s e)" "pcmQueueRef (pb_step B s e) = []"
    "\<not> isReceivingPcmRef (pb_step B s e)"
    by simp_all
  note IH = Cons.IH [OF q es]
  with st show ?case by simp
qed

lemma interrupted_quiet:
  assumes "isPlaying s" and "\<forall>r. AudioStreamStart r \<notin> set es"
  shows "startedBuffers (pb_run B (snd (interruptPlayback s)) es) = startedBuffers s \<and>
         \<not> isPlaying (pb_run B (snd (interruptPlayback s)) es) \<and>
         length (playingSources (pb_run B (snd (interruptPlayback s)) es))
           \<le> length (playingSources s)"
proof -
  let ?t = "snd (interruptPlayback s)"
  have t: "\<not> isPlaying ?t" "pcmQueueRef ?t = []" "\<not> isReceivingPcmRef ?t"
    "startedBuffers ?t = startedBuffers s" "playingSources ?t = playingSources s"
    using assms(1) by (simp_all add: interruptPlayback_def Let_def split: option.splits)
  from quiet_run [OF t(1-3) assms(2), of B] show ?thesis
    by (simp add: t)
qed

text \<open>Within a stream the playing flag is set as long as anything of it is left.\<close>

lemma stream_flag:
  assumes s0: "\<not> isMuted s0" "audioContextRef s0 \<or> newAudioContext_ok B"
      "playingSources s0 = []"
    and es: "\<forall>e\<in>set es. stream_event e"
    and pl: "\<forall>c\<in>set (accepted B True es).
               playable B (case rate of None \<Rightarrow> 24000 | Some n \<Rightarrow> n) c"
  shows "isPlaying (pb_run B s0 (AudioStreamStart rate # es)) \<or>
         drained (pb_run B s0 (AudioStreamStart rate # es))"
proof -
  define s1 where "s1 = snd (startPcmStream B rate s0)"
  note fresh = startPcmStream_fresh [OF s0, of rate, folded s1_def]
  then have inv1: "stream_inv s1" and mu1: "\<not> isMuted s1" and play1: "isPlaying s1 \<or> drained s1"
    and recv1: "isReceivingPcmRef s1" and q1: "pcmQueueRef s1 = []"
    and r1: "pcmSampleRateRef s1 = (case rate of None \<Rightarrow> 24000 | Some n \<Rightarrow> n)"
    by simp_all
  have pl1: "\<forall>c\<in>set (pcmQueueRef s1 @ accepted B (isReceivingPcmRef s1) es).
               playable B (pcmSampleRateRef s1) c"
    using pl by (simp add: q1 recv1 r1)
  have "step_post B s1 (accepted B True es) (AudioStreamEnd \<notin> set es) (pb_run B s1 es)"
    using stream_run [OF inv1 mu1 es pl1 play1] by (simp add: recv1)
  then have "isPlaying (pb_run B s1 es) \<or> drained (pb_run B s1 es)"
    unfolding step_post_def by simp
  then show ?thesis by (simp add: s1_def)
qed

lemmas demo_eval =
  demo_browser_def demo_idle_def demo_playing_def startPcmStream_def initAudioContext_def
  endPcmStream_def processPcmChunk_def processPcmQueue.simps processPcmQueue_resume_def
  convertPcmToAudioBuffer_def interruptPlayback_def Let_def buffer_of_def playable_def

lemma demo_stream_run:
  "pb_run demo_browser demo_idle (AudioStreamStart (Some 24000) # demo_stream) = demo_last_chunk"
  by (simp add: demo_stream_def demo_last_chunk_def demo_eval)

lemma demo_stream_drained:
  "pb_run demo_browser demo_last_chunk (replicate (Suc n) (PlaybackEnded 0)) = demo_done"
proof -
  have "pb_step demo_browser demo_last_chunk (PlaybackEnded 0) = demo_done"
    by (simp add: demo_last_chunk_def demo_done_def demo_eval)
  moreover have "playingSources demo_done = []"
    by (simp add: demo_done_def demo_idle_def)
  ultimately show ?thesis by (simp add: ended_idle)
qed

lemma demo_accepted:
  "accepted demo_browser True demo_stream = [[0, 1], [0xff, 0x7f], [0, 0x80]]"
  by (simp add: demo_stream_def demo_browser_def)

declare pb_run_Cons [simp del] pb_run_Nil [simp del]

subsection \<open>Claim C2: single-flight, first-in first-out playback\<close>

text \<open>
  Claim C2: at every moment at most one PCM chunk is being rendered, and chunks are
  rendered in the order in which they were enqueued.

  The order holds, and within one stream so does single-flight (\<open>stream_in_order\<close>). The
  claim as a whole does not hold of the hook. \<open>startPcmStream\<close> and \<open>interruptPlayback\<close>
  set \<open>isProcessingPcmRef\<close> to false without stopping the source that is playing, so the
  next chunk is started at once, on top of it. The inputs below are a second
  \<open>audio_stream_start\<close> while the first stream's chunk still plays, and the same with the
  Interrupt button pressed in between: both end with two chunks rendering at the same time.
\<close>

theorem restart_renders_two_chunks_at_once:
  "playingSources (pb_run demo_browser demo_idle
     [AudioStreamStart (Some 24000), AudioChunk ''AAE='',
      AudioStreamStart (Some 24000), AudioChunk ''/38='']) =
     [buffer_of 24000 [0, 1], buffer_of 24000 [0xff, 0x7f]] \<and>
   playingSources (pb_run demo_browser demo_idle
     [AudioStreamStart (Some 24000), AudioChunk ''AAE='', InterruptClick,
      AudioStreamStart (Some 24000), AudioChunk ''/38='']) =
     [buffer_of 24000 [0, 1], buffer_of 24000 [0xff, 0x7f]]"
  by (simp add: demo_eval pb_run_Cons pb_run_Nil)

subsection \<open>Claim C3: interruptPlayback\<close>

text \<open>
  Claim C3: \<open>interruptPlayback\<close> called while the queue is empty and nothing is playing
  returns false and leaves the playback state as it was; called during active playback it
  returns true, empties the queue, marks the stream as not receiving and sets the playing
  flag to false. So it returns true exactly when something was stopped.

  As stated this does not hold. What the callback tests is the hook's \<open>isPlaying\<close> flag,
  and \<open>startPcmStream\<close> sets that flag before any chunk has arrived. Right after a stream
  start the queue is empty, no source is rendering and the audio element is paused;
  \<open>interruptPlayback\<close> returns true there, and the state it leaves is the one before the
  stream start.
\<close>

theorem interruptPlayback_true_with_nothing_rendering:
  "pcmQueueRef (pb_run demo_browser demo_idle [AudioStreamStart (Some 24000)]) = [] \<and>
   playingSources (pb_run demo_browser demo_idle [AudioStreamStart (Some 24000)]) = [] \<and>
   audioPlayerRef (pb_run demo_browser demo_idle [AudioStreamStart (Some 24000)]) =
     Some \<lparr>src = [], paused = True, currentTime = 0\<rparr> \<and>
   isPlaying (pb_run demo_browser demo_idle [AudioStreamStart (Some 24000)]) \<and>
   interruptPlayback (pb_run demo_browser demo_idle [AudioStreamStart (Some 24000)]) =
     (True, demo_idle)"
  by (simp add: demo_eval pb_run_Cons pb_run_Nil)

text \<open>
  Claim C3, amended: \<open>interruptPlayback\<close> called while the \<open>isPlaying\<close> flag is clear
  returns false and leaves the whole playback state as it was; called while the flag is
  set it returns true, pauses and rewinds the audio element, empties the queue, marks the
  stream as not receiving and clears the flag. It returns true exactly when the flag was
  set, which is exactly when it changes the state.

  After a call that returned true the hook starts no buffer, and the flag stays clear,
  whatever chunks, stream ends, playback ends and clicks follow, until the next stream
  start (\<open>es\<close> below).

  The flag is set from the stream start on: in a stream started on a hook that is not
  muted and has nothing rendering, after any chunks, stream ends and playback ends
  (\<open>fs\<close> below, every enqueued chunk a buffer the browser takes), \<open>interruptPlayback\<close>
  returns true whenever a source is rendering, a chunk is queued or the stream is still
  receiving.

  What becomes of a source that is rendering at the call is the matter of claim C2.
\<close>

theorem interruptPlayback_follows_isPlaying:
  "(\<not> isPlaying s \<longrightarrow> interruptPlayback s = (False, s)) \<and>
   (isPlaying s \<longrightarrow>
      fst (interruptPlayback s) \<and>
      pcmQueueRef (snd (interruptPlayback s)) = [] \<and>
      \<not> isReceivingPcmRef (snd (interruptPlayback s)) \<and>
      \<not> isProcessingPcmRef (snd (interruptPlayback s)) \<and>
      \<not> isPlaying (snd (interruptPlayback s)) \<and>
      audioPlayerRef (snd (interruptPlayback s)) =
        map_option (\<lambda>a. a\<lparr>paused := True, currentTime := 0\<rparr>) (audioPlayerRef s) \<and>
      isMuted (snd (interruptPlayback s)) = isMuted s \<and>
      audioContextRef (snd (interruptPlayback s)) = audioContextRef s \<and>
      pcmSampleRateRef (snd (interruptPlayback s)) = pcmSampleRateRef s) \<and>
   (fst (interruptPlayback s) \<longleftrightarrow> isPlaying s) \<and>
   (fst (interruptPlayback s) \<longleftrightarrow> snd (interruptPlayback s) \<noteq> s) \<and>
   (isPlaying s \<and> (\<forall>r. AudioStreamStart r \<notin> set es) \<longrightarrow>
      startedBuffers (pb_run B (snd (interruptPlayback s)) es) = startedBuffers s \<and>
      \<not> isPlaying (pb_run B (snd (interruptPlayback s)) es)) \<and>
   (\<not> isMuted s0 \<and> (audioContextRef s0 \<or> newAudioContext_ok B) \<and> playingSources s0 = [] \<and>
    (\<forall>e\<in>set fs. stream_event e) \<and>
    (\<forall>c\<in>set (accepted B True fs).
       playable B (case rate of None \<Rightarrow> 24000 | Some n \<Rightarrow> n) c) \<and>
    (playingSources (pb_run B s0 (AudioStreamStart rate # fs)) \<noteq> [] \<or>
     pcmQueueRef (pb_run B s0 (AudioStreamStart rate # fs)) \<noteq> [] \<or>
     isReceivingPcmRef (pb_run B s0 (AudioStreamStart rate # fs))) \<longrightarrow>
      fst (interruptPlayback (pb_run B s0 (AudioStreamStart rate # fs))))"
proof -
  have changed: "snd (interruptPlayback s) \<noteq> s" if "isPlaying s"
  proof
    assume "snd (interruptPlayback s) = s"
    then have "isPlaying (snd (interruptPlayback s)) = isPlaying s" by simp
    with that show False
      by (simp add: interruptPlayback_def Let_def split: option.splits)
  qed
  have flag: "fst (interruptPlayback t) \<longleftrightarrow> isPlaying t" for t
    by (simp add: interruptPlayback_def Let_def)
  have call: "(\<not> isPlaying s \<longrightarrow> interruptPlayback s = (False, s)) \<and>
   (isPlaying s \<longrightarrow>
      fst (interruptPlayback s) \<and>
      pcmQueueRef (snd (interruptPlayback s)) = [] \<and>
      \<not> isReceivingPcmRef (snd (interruptPlayback s)) \<and>
      \<not> isProcessingPcmRef (snd (interruptPlayback s)) \<and>
      \<not> isPlaying (snd (interruptPlayback s)) \<and>
      audioPlayerRef (snd (interruptPlayback s)) =
        map_option (\<lambda>a. a\<lparr>paused := True, currentTime := 0\<rparr>) (audioPlayerRef s) \<and>
      isMuted (snd (interruptPlayback s)) = isMuted s \<and>
      audioContextRef (snd (interruptPlayback s)) = audioContextRef s \<and>
      pcmSampleRateRef (snd (interruptPlayback s)) = pcmSampleRateRef s) \<and>
   (fst (interruptPlayback s) \<longleftrightarrow> snd (interruptPlayback s) \<noteq> s)"
    using changed by (auto simp: interruptPlayback_def Let_def split: option.splits)
  have after: "isPlaying s \<and> (\<forall>r. AudioStreamStart r \<notin> set es) \<longrightarrow>
      startedBuffers (pb_run B (snd (interruptPlayback s)) es) = startedBuffers s \<and>
      \<not> isPlaying (pb_run B (snd (interruptPlayback s)) es)"
    using interrupted_quiet [of s es B] by blast
  have stream: "fst (interruptPlayback (pb_run B s0 (AudioStreamStart rate # fs)))"
    if "\<not> isMuted s0" "audioContextRef s0 \<or> newAudioContext_ok B" "playingSources s0 = []"
      "\<forall>e\<in>set fs. stream_event e"
      "\<forall>c\<in>set (accepted B True fs). playable B (case rate of None \<Rightarrow> 24000 | Some n \<Rightarrow> n) c"
      "playingSources (pb_run B s0 (AudioStreamStart rate # fs)) \<noteq> [] \<or>
       pcmQueueRef (pb_run B s0 (AudioStreamStart rate # fs)) \<noteq> [] \<or>
       isReceivingPcmRef (pb_run B s0 (AudioStreamStart rate # fs))"
  proof -
    from stream_flag [OF that(1-5)] that(6)
    have "isPlaying (pb_run B s0 (AudioStreamStart rate # fs))"
      unfolding drained_def by blast
    then show ?thesis by (simp only: flag)
  qed
  from call flag [of s] after stream show ?thesis by blast
qed

text \<open>
  On the idle hook the call returns false. In the three-chunk stream, while the third
  chunk is rendering, it returns true and clears the flags, and the playback end that
  follows starts nothing.
\<close>

theorem interruptPlayback_follows_isPlaying_witness:
  "interruptPlayback demo_idle = (False, demo_idle) \<and>
   fst (interruptPlayback demo_playing) \<and>
   pcmQueueRef (snd (interruptPlayback demo_playing)) = [] \<and>
   \<not> isReceivingPcmRef (snd (interruptPlayback demo_playing)) \<and>
   \<not> isPlaying (snd (interruptPlayback demo_playing)) \<and>
   snd (interruptPlayback demo_playing) \<noteq> demo_playing \<and>
   startedBuffers (pb_run demo_browser (snd (interruptPlayback demo_playing))
       [AudioChunk ''AIA='', PlaybackEnded 0, AudioStreamEnd]) =
     [buffer_of 24000 [0, 1]] \<and>
   fst (interruptPlayback
     (pb_run demo_browser demo_idle (AudioStreamStart (Some 24000) # demo_stream)))"
proof -
  have hyps: "\<not> isMuted demo_idle \<and>
      (audioContextRef demo_idle \<or> newAudioContext_ok demo_browser) \<and>
      playingSources demo_idle = [] \<and> (\<forall>e\<in>set demo_stream. stream_event e) \<and>
      (\<forall>c\<in>set (accepted demo_browser True demo_stream).
         playable demo_browser (case Some 24000 of None \<Rightarrow> 24000 | Some n \<Rightarrow> n) c) \<and>
      (playingSources (pb_run demo_browser demo_idle
           (AudioStreamStart (Some 24000) # demo_stream)) \<noteq> [] \<or>
       pcmQueueRef (pb_run demo_browser demo_idle
           (AudioStreamStart (Some 24000) # demo_stream)) \<noteq> [] \<or>
       isReceivingPcmRef (pb_run demo_browser demo_idle
           (AudioStreamStart (Some 24000) # demo_stream)))"
    unfolding demo_stream_run demo_accepted
    by (simp add: demo_idle_def demo_browser_def demo_stream_def playable_def
          demo_last_chunk_def)
  have quiet: "isPlaying demo_playing \<and>
      (\<forall>r. AudioStreamStart r \<notin> set [AudioChunk ''AIA='', PlaybackEnded 0, AudioStreamEnd])"
    by (simp add: demo_playing_def)
  note a = interruptPlayback_follows_isPlaying
    [of demo_idle "[]" demo_browser demo_idle demo_stream "Some 24000"]
  note b = interruptPlayback_follows_isPlaying
    [of demo_playing "[AudioChunk ''AIA='', PlaybackEnded 0, AudioStreamEnd]"
       demo_browser demo_idle "[]" None]
  have idle: "\<not> isPlaying demo_idle"
    and sb: "startedBuffers demo_playing = [buffer_of 24000 [0, 1]]"
    by (simp_all add: demo_idle_def demo_playing_def)
  have 1: "interruptPlayback demo_idle = (False, demo_idle)"
    using a idle by blast
  have 2: "fst (interruptPlayback demo_playing) \<and>
      pcmQueueRef (snd (interruptPlayback demo_playing)) = [] \<and>
      \<not> isReceivingPcmRef (snd (interruptPlayback demo_playing)) \<and>
      \<not> isPlaying (snd (interruptPlayback demo_playing)) \<and>
      snd (interruptPlayback demo_playing) \<noteq> demo_playing"
    using b quiet by blast
  have 3: "startedBuffers (pb_run demo_browser (snd (interruptPlayback demo_playing))
       [AudioChunk ''AIA='', PlaybackEnded 0, AudioStreamEnd]) = startedBuffers demo_playing"
    using b quiet by blast
  have 4: "fst (interruptPlayback
     (pb_run demo_browser demo_idle (AudioStreamStart (Some 24000) # demo_stream)))"
    using a hyps by blast
  from 1 2 3 4 show ?thesis by (simp only: sb) blast
qed


subsection \<open>Claim C6: endPcmStream lets the queue drain\<close>

text \<open>
  Claim C6: \<open>endPcmStream\<close> marks the stream as not receiving and does not clear the
  queue; every chunk enqueued before it still plays, in order; the playing flag becomes
  false only once the queue is empty and the stream is not receiving, that is only after
  the last queued chunk has finished.

  The theorem is about any stream: \<open>startPcmStream\<close> on a hook that is not muted, has an
  audio context and has nothing playing, followed by any sequence \<open>es\<close> of chunks,
  stream ends and playback ends, in any interleaving. \<open>accepted B True es\<close> are the
  chunks of \<open>es\<close> that were enqueued, and every one of them is assumed to be a buffer the
  browser takes (a buffer it refuses is skipped by the \<open>catch\<close> branch). At the state
  \<open>t\<close> after \<open>es\<close>:
  \<^item> \<open>endPcmStream\<close> only clears the receiving flag;
  \<^item> at most one chunk is playing;
  \<^item> the buffers started so far are the first \<open>k\<close> enqueued chunks, in order, and the
    other chunks are in the queue;
  \<^item> the playing flag is still true, unless the stream has ended, every enqueued chunk
    has been started and none is playing any more;
  \<^item> after as many further playback ends as there are chunks, plus one, every enqueued
    chunk has been started, in order, and if the stream had ended while one was still
    playing the playing flag is false.
\<close>

theorem endPcmStream_drains_in_order:
  assumes "\<not> isMuted s0" and "audioContextRef s0 \<or> newAudioContext_ok B"
    and "playingSources s0 = []"
    and "\<forall>e\<in>set es. stream_event e"
    and "r = (case rate of None \<Rightarrow> 24000 | Some n \<Rightarrow> n)"
    and "\<forall>c\<in>set (accepted B True es). playable B r c"
  shows "let t = pb_run B s0 (AudioStreamStart rate # es);
             chunks = map (buffer_of r) (accepted B True es);
             u = pb_run B t (replicate (Suc (length chunks)) (PlaybackEnded 0))
         in endPcmStream B t = t\<lparr>isReceivingPcmRef := False\<rparr> \<and>
            length (playingSources t) \<le> 1 \<and>
            (\<exists>k\<le>length chunks.
               startedBuffers t = startedBuffers s0 @ take k chunks \<and>
               length (pcmQueueRef t) = length chunks - k) \<and>
            (isPlaying t \<or>
               AudioStreamEnd \<in> set es \<and>
               startedBuffers t = startedBuffers s0 @ chunks \<and> playingSources t = []) \<and>
            startedBuffers u = startedBuffers s0 @ chunks \<and>
            playingSources u = [] \<and> pcmQueueRef u = [] \<and>
            (AudioStreamEnd \<in> set es \<and> playingSources t \<noteq> [] \<longrightarrow> \<not> isPlaying u)"
  using assms by (rule stream_in_order)

text \<open>
  The run of the claim: a stream start, three chunks and the stream end, with the first
  chunk finishing before the third arrives (\<open>demo_stream\<close>). After it all three chunks have
  been started in order, the third is the one playing and the playing flag is still true;
  once that chunk has ended nothing plays and the flag is false.
\<close>

theorem endPcmStream_drains_in_order_witness:
  "startedBuffers (pb_run demo_browser demo_idle (AudioStreamStart (Some 24000) # demo_stream)) =
     [buffer_of 24000 [0, 1], buffer_of 24000 [0xff, 0x7f], buffer_of 24000 [0, 0x80]] \<and>
   playingSources (pb_run demo_browser demo_idle (AudioStreamStart (Some 24000) # demo_stream)) =
     [buffer_of 24000 [0, 0x80]] \<and>
   isPlaying (pb_run demo_browser demo_idle (AudioStreamStart (Some 24000) # demo_stream)) \<and>
   startedBuffers (pb_run demo_browser
       (pb_run demo_browser demo_idle (AudioStreamStart (Some 24000) # demo_stream))
       (replicate (Suc 3) (PlaybackEnded 0))) =
     [buffer_of 24000 [0, 1], buffer_of 24000 [0xff, 0x7f], buffer_of 24000 [0, 0x80]] \<and>
   \<not> isPlaying (pb_run demo_browser
       (pb_run demo_browser demo_idle (AudioStreamStart (Some 24000) # demo_stream))
       (replicate (Suc 3) (PlaybackEnded 0)))"
proof -
  have hyps: "\<not> isMuted demo_idle" "audioContextRef demo_idle \<or> newAudioContext_ok demo_browser"
    "playingSources demo_idle = []" "\<forall>e\<in>set demo_stream. stream_event e"
    "24000 = (case Some 24000 of None \<Rightarrow> 24000 | Some n \<Rightarrow> n)"
    "\<forall>c\<in>set (accepted demo_browser True demo_stream). playable demo_browser 24000 c"
    by (simp_all add: demo_idle_def demo_browser_def demo_stream_def playable_def)
  note inst = endPcmStream_drains_in_order [OF hyps,
      unfolded Let_def demo_accepted demo_stream_run demo_stream_drained]
  have "isPlaying demo_last_chunk" "playingSources demo_last_chunk \<noteq> []"
    "startedBuffers demo_idle = []" "AudioStreamEnd \<in> set demo_stream"
    "playingSources demo_last_chunk = [buffer_of 24000 [0, 0x80]]"
    "startedBuffers demo_last_chunk =
       [buffer_of 24000 [0, 1], buffer_of 24000 [0xff, 0x7f], buffer_of 24000 [0, 0x80]]"
    by (simp_all add: demo_last_chunk_def demo_idle_def demo_stream_def)
  with inst show ?thesis
    unfolding demo_stream_run demo_stream_drained by simp
qed

subsection \<open>Claim C10: chunks and stream starts that are dropped\<close>

text \<open>
  Claim C10: a chunk that arrives while the hook is muted, or while no stream is
  receiving, is dropped: \<open>processPcmChunk\<close> returns the playback state it was given. And
  \<open>startPcmStream\<close> on a muted hook returns false and the state it was given.
\<close>

theorem muted_or_idle_hook_drops_input:
  "(isMuted s \<or> \<not> isReceivingPcmRef s \<longrightarrow> processPcmChunk B d s = s) \<and>
   (isMuted s \<longrightarrow> startPcmStream B rate s = (False, s))"
  by (simp add: processPcmChunk_def startPcmStream_def)

theorem muted_or_idle_hook_drops_input_witness:
  "processPcmChunk demo_browser ''AAE='' demo_idle = demo_idle \<and>
   processPcmChunk demo_browser ''AAE='' (demo_playing\<lparr>isMuted := True\<rparr>) =
     demo_playing\<lparr>isMuted := True\<rparr> \<and>
   startPcmStream demo_browser (Some 24000) (demo_playing\<lparr>isMuted := True\<rparr>) =
     (False, demo_playing\<lparr>isMuted := True\<rparr>)"
  using muted_or_idle_hook_drops_input [of demo_idle demo_browser "''AAE=''" "Some 24000"]
    muted_or_idle_hook_drops_input
      [of "demo_playing\<lparr>isMuted := True\<rparr>" demo_browser "''AAE=''" "Some 24000"]
  by (simp add: demo_idle_def demo_playing_def)

section \<open>Properties of the connection hook\<close>

lemmas ws_eval =
  connect_def onopen_def onclose_def connect_gateway_def connect_host_def
  onclose_gateway_def onclose_host_def onopen_gateway_def onopen_host_def onerror_def
  close_existing_def current_readyState_def socket_close_def socket_send_def
  new_WebSocket_def set_readyState_def rerender_def effect_cleanup_def effect_setup_def
  mounted_def demo_env_def unset_env_def abnormal_def maxReconnectAttempts_def
  reconnectInterval_def closeReason_def getHostFromUrl_def Let_def digit_def

lemma ws_run_Nil: "ws_run v E s [] = s"
  by (simp add: ws_run_def)

lemma ws_run_Cons: "ws_run v E s (e # es) = ws_run v E (ws_step v E s e) es"
  by (simp add: ws_run_def)

lemma ws_run_append: "ws_run v E s (es @ fs) = ws_run v E (ws_run v E s es) fs"
  by (simp add: ws_run_def)

text \<open>What one call of the close handler does, in terms of the value \<open>k\<close> it captured.\<close>

lemma onclose_rule:
  "timers (onclose v k event s) =
     timers s @ (if \<not> wasClean event \<and> k < 5
                 then [\<lparr>delay = 3000, connect_of = k, of_effect = False\<rparr>] else []) \<and>
   reconnectAttempts (onclose v k event s) =
     (if \<not> wasClean event \<and> k < 5 then k + 1 else reconnectAttempts s)"
  by (cases v)
     (simp_all add: onclose_def onclose_gateway_def onclose_host_def Let_def
        maxReconnectAttempts_def reconnectInterval_def)

lemma upt6: "[0..<6] = [0, 1, 2, 3, 4, 5]" "[0..<5] = [0, 1, 2, 3, 4]"
  by (simp_all add: upt_rec)

lemma server_down_gateway:
  "ws_run Gateway demo_env mounted server_down =
     failed_state ''wss://gw.example/prod?client_id=''
       ''Connection failed (Abnormal closure - check server logs)''"
  by (simp add: server_down_def ws_run_Cons ws_run_Nil ws_eval failed_state_def upt6)

lemma server_down_host:
  "ws_run Host demo_env mounted server_down =
     failed_state ''wss://api.example:8001/ws/'' ''Connection failed''"
  by (simp add: server_down_def ws_run_Cons ws_run_Nil ws_eval failed_state_def upt6)

lemma first_retry_after_failure:
  "reconnectAttempts (ws_run v demo_env (failed_state p t) first_retry) = 1 \<and>
   status (ws_run v demo_env (failed_state p t) first_retry) = ''Reconnecting (1/5)...'' \<and>
   timers (ws_run v demo_env (failed_state p t) first_retry) =
     [\<lparr>delay = 3000, connect_of = 1, of_effect = False\<rparr>,
      \<lparr>delay = 3000, connect_of = 2, of_effect = False\<rparr>,
      \<lparr>delay = 3000, connect_of = 3, of_effect = False\<rparr>,
      \<lparr>delay = 3000, connect_of = 4, of_effect = False\<rparr>,
      \<lparr>delay = 3000, connect_of = 0, of_effect = False\<rparr>,
      \<lparr>delay = 100, connect_of = 1, of_effect = True\<rparr>]"
  by (cases v)
     (simp_all add: first_retry_def ws_run_Cons ws_run_Nil ws_eval failed_state_def upt6)

subsection \<open>Claim C1: the reconnect counter\<close>

text \<open>
  Claim C1: over any sequence of close events a reconnect is scheduled exactly when the
  close is not clean and the attempt counter is below 5; each such close adds one to the
  counter, which never decreases but for the reset on a successful open; the retry comes
  3000 ms later; once the counter has reached 5 no reconnect is scheduled any more; a clean
  close never schedules one.

  One call of the close handler does this for the value of \<open>reconnectAttempts\<close> that
  its closure captured (\<open>onclose_rule\<close>). That value is the one of the render in which
  its \<open>connect\<close> was made, and \<open>setTimeout(connect, reconnectInterval)\<close> schedules that
  same \<open>connect\<close>, so a retry works with the old count. With the server down the counter
  goes up to 5 through the connects of the effect, and the status reads "Connection
  failed"; then the retry that the first close scheduled fires with the count 0, its
  socket closes, and the handler sets the counter back to 1 and schedules a reconnect
  again. The legacy client, which keeps the counter in a variable, does what the claim
  says (\<open>closes_legacy_counter\<close>).
\<close>

theorem reconnect_counter_falls_back_and_retries_go_on:
  "reconnectAttempts (ws_run Gateway demo_env mounted server_down) = 5 \<and>
   status (ws_run Gateway demo_env mounted server_down) =
     ''Connection failed (Abnormal closure - check server logs)'' \<and>
   reconnectAttempts (ws_run Gateway demo_env mounted (server_down @ first_retry)) = 1 \<and>
   status (ws_run Gateway demo_env mounted (server_down @ first_retry)) =
     ''Reconnecting (1/5)...'' \<and>
   \<lparr>delay = 3000, connect_of = 0, of_effect = False\<rparr>
     \<in> set (timers (ws_run Gateway demo_env mounted (server_down @ first_retry))) \<and>
   reconnectAttempts (ws_run Host demo_env mounted server_down) = 5 \<and>
   status (ws_run Host demo_env mounted server_down) = ''Connection failed'' \<and>
   reconnectAttempts (ws_run Host demo_env mounted (server_down @ first_retry)) = 1 \<and>
   \<lparr>delay = 3000, connect_of = 0, of_effect = False\<rparr>
     \<in> set (timers (ws_run Host demo_env mounted (server_down @ first_retry)))"
  by (simp add: ws_run_append server_down_gateway server_down_host first_retry_after_failure)
     (simp add: failed_state_def)

subsection \<open>Claim C4: sendMessage\<close>

lemma length_concat_update:
  "i < length xs \<Longrightarrow>
   length (concat (map sent (xs[i := (xs ! i)\<lparr>sent := sent (xs ! i) @ [f]\<rparr>]))) =
   Suc (length (concat (map sent xs)))"
proof (induction xs arbitrary: i)
  case Nil
  then show ?case by simp
next
  case (Cons x xs)
  then show ?case by (cases i) simp_all
qed

text \<open>
  Claim C4: for every command, \<open>sendMessage\<close> returns false and writes nothing to a
  socket unless the socket of \<open>socketRef\<close> is there and open; when it is open,
  \<open>sendMessage\<close> writes exactly one frame, the serialised command, to that socket and
  returns true. Nothing is kept for later: when it returns false the hook is as it was.
\<close>

theorem sendMessage_writes_only_when_open:
  "(current_readyState s \<noteq> Some OPEN \<longrightarrow> sendMessage E m s = (False, s)) \<and>
   (current_readyState s = Some OPEN \<longrightarrow>
      fst (sendMessage E m s) \<and>
      (\<exists>i < length (sockets s).
         socketRef s = Some i \<and>
         snd (sendMessage E m s) =
           s\<lparr>sockets := (sockets s)[i := (sockets s ! i)
                \<lparr>sent := sent (sockets s ! i) @ [JSON_stringify E m]\<rparr>]\<rparr>) \<and>
      length (frames_written (snd (sendMessage E m s))) = Suc (length (frames_written s))) \<and>
   (fst (sendMessage E m s) \<longleftrightarrow> current_readyState s = Some OPEN)"
  by (auto simp: sendMessage_def current_readyState_def socket_send_def frames_written_def
        length_concat_update split: option.splits if_splits)

theorem sendMessage_writes_only_when_open_witness:
  "sendMessage demo_env Interrupt_speech mounted = (False, mounted) \<and>
   sendMessage demo_env Interrupt_speech (set_readyState 0 CLOSED demo_open) =
     (False, set_readyState 0 CLOSED demo_open) \<and>
   sendMessage demo_env Interrupt_speech (set_readyState 0 CONNECTING demo_open) =
     (False, set_readyState 0 CONNECTING demo_open) \<and>
   fst (sendMessage demo_env Interrupt_speech demo_open) \<and>
   frames_written (snd (sendMessage demo_env Interrupt_speech demo_open)) =
     [''ping'', ''interrupt_speech'']"
  using sendMessage_writes_only_when_open [of mounted demo_env Interrupt_speech]
    sendMessage_writes_only_when_open [of demo_open demo_env Interrupt_speech]
  by (simp add: sendMessage_def current_readyState_def socket_send_def frames_written_def
        set_readyState_def mounted_def effect_setup_def demo_open_def demo_env_def)

subsection \<open>Claim C8: connect without configuration\<close>

text \<open>
  Claim C8: with the gateway endpoint not configured, \<open>connect\<close> shows the status
  "Configuration error", ends in the failed state and never constructs a socket.

  As stated this does not hold of both hooks. The hook of \<open>lib/useWebSocket.js\<close> reads
  no gateway variable. With none of its
  variables set it falls back to the host \<open>localhost:8001\<close> and constructs a socket; the
  status stays as it was.
\<close>

theorem connect_host_constructs_a_socket_without_configuration:
  "sockets (connect_host 0 unset_env ''c0'' mounted) =
     [\<lparr>url = ''ws://localhost:8001/ws/c0'', readyState = CONNECTING,
       seen_attempts = 0, sent = []\<rparr>] \<and>
   status (connect_host 0 unset_env ''c0'' mounted) = ''Initializing...''"
  by (simp add: ws_eval)

lemma ws_step_idle:
  "sockets s = [] \<Longrightarrow> timers s = [] \<Longrightarrow> ws_step v E s e = s"
  by (cases e) simp_all

text \<open>
  Claim C8, amended: in the hook that connects to the gateway, when
  \<open>NEXT_PUBLIC_WS_GATEWAY\<close> is absent or empty, \<open>connect\<close> sets the status to
  "Configuration error" and does nothing else: it constructs no socket and sets no timer.
  From the mount on, the hook then stays in that state whatever event follows. The hook
  that connects to a host has no such state: with no host configured, \<open>connect\<close>
  constructs a socket to \<open>localhost:8001\<close> (when the browser accepts the URL).
\<close>

theorem connect_gateway_without_configuration:
  "(NEXT_PUBLIC_WS_GATEWAY E = None \<or> NEXT_PUBLIC_WS_GATEWAY E = Some [] \<longrightarrow>
      connect_gateway k E clientId s = s\<lparr>status := ''Configuration error''\<rparr> \<and>
      ws_step Gateway E mounted (TimerFires 0 clientId) =
        mounted\<lparr>status := ''Configuration error'', timers := []\<rparr> \<and>
      (\<forall>es. ws_run Gateway E (mounted\<lparr>status := ''Configuration error'', timers := []\<rparr>) es =
            mounted\<lparr>status := ''Configuration error'', timers := []\<rparr>)) \<and>
   (NEXT_PUBLIC_WS_HOST E = None \<and> NEXT_PUBLIC_API_URL E = None \<and>
    WebSocket_accepts E
      ((if location_protocol E = ''https:'' then ''wss:'' else ''ws:'') @
       ''//localhost:8001/ws/'' @ clientId) \<longrightarrow>
      sockets (connect_host k E clientId s) =
        sockets (close_existing s) @
          [\<lparr>url = (if location_protocol E = ''https:'' then ''wss:'' else ''ws:'') @
                  ''//localhost:8001/ws/'' @ clientId,
            readyState = CONNECTING, seen_attempts = k, sent = []\<rparr>])"
proof -
  have idle: "ws_run Gateway E (mounted\<lparr>status := ''Configuration error'', timers := []\<rparr>) es =
            mounted\<lparr>status := ''Configuration error'', timers := []\<rparr>" for es
    by (induction es) (simp_all add: ws_run_Nil ws_run_Cons ws_step_idle mounted_def effect_setup_def)
  show ?thesis
    using idle
    by (auto simp: connect_gateway_def connect_host_def connect_def getHostFromUrl_def
          new_WebSocket_def mounted_def effect_setup_def Let_def)
qed

theorem connect_gateway_without_configuration_witness:
  "ws_run Gateway unset_env mounted [TimerFires 0 ''c0''] =
     mounted\<lparr>status := ''Configuration error'', timers := []\<rparr> \<and>
   sockets (ws_run Gateway unset_env mounted
       [TimerFires 0 ''c0'', SocketOpens 0, SocketCloses 0 abnormal, TimerFires 0 ''c1'']) = [] \<and>
   sockets (connect_host 0 unset_env ''c0'' mounted) =
     [\<lparr>url = ''ws://localhost:8001/ws/c0'', readyState = CONNECTING,
       seen_attempts = 0, sent = []\<rparr>]"
  using connect_gateway_without_configuration [of unset_env 0 "''c0''" mounted]
  by (simp add: ws_run_Cons [of _ _ _ "TimerFires 0 ''c0''"] ws_run_Nil unset_env_def demo_env_def)
     (simp add: mounted_def effect_setup_def close_existing_def)

subsection \<open>Claim C9: close codes\<close>

lemma close_code_cases:
  "1000 \<le> c \<Longrightarrow> c \<le> 1015 \<Longrightarrow>
   c = 1000 \<or> c = 1001 \<or> c = 1002 \<or> c = 1003 \<or> c = 1004 \<or> c = 1005 \<or> c = 1006 \<or>
   c = 1007 \<or> c = 1008 \<or> c = 1009 \<or> c = 1010 \<or> c = 1011 \<or> c = 1012 \<or> c = 1013 \<or>
   c = 1014 \<or> c = (1015::nat)"
  by arith

lemma closeReason_known:
  assumes "1000 \<le> c" "c \<le> 1015" "c \<noteq> 1004"
  shows "closeReason c \<noteq> ''Unknown reason''"
  using close_code_cases [OF assms(1,2)] assms(3)
  by (elim disjE) (simp_all add: closeReason_def)

text \<open>
  Claim C9: the close handler maps every close code from 1000 to 1015 to a reason of its
  own, and 1000 is the only code treated as a clean close, which suppresses the
  reconnection.

  As stated this does not hold. Whether a close suppresses the reconnection is read from \<open>event.wasClean\<close>, not from
  the code: a clean close with the code 1001 schedules nothing, and a close with the code
  1000 that is not clean schedules a reconnect. The code 1004 has no entry in the table.
  The hook that connects to a host shows no reason at all.
\<close>

theorem clean_close_with_another_code:
  "timers (onclose_gateway 0 \<lparr>wasClean = True, code = 1001\<rparr> demo_open) = timers demo_open \<and>
   status (onclose_gateway 0 \<lparr>wasClean = True, code = 1001\<rparr> demo_open) =
     ''Disconnected (Going away)'' \<and>
   timers (onclose_gateway 0 \<lparr>wasClean = False, code = 1000\<rparr> demo_open) =
     [\<lparr>delay = 3000, connect_of = 0, of_effect = False\<rparr>] \<and>
   status (onclose_gateway 0 \<lparr>wasClean = False, code = 1000\<rparr> demo_open) =
     ''Reconnecting (1/5)...'' \<and>
   closeReason 1004 = ''Unknown reason'' \<and>
   status (onclose_host 0 \<lparr>wasClean = True, code = 1001\<rparr> demo_open) = ''Disconnected''"
  by (simp add: ws_eval demo_open_def)

text \<open>
  Claim C9, amended: the close handler of the gateway hook maps the close codes from 1000
  to 1015, but for 1004, each to a reason of its own: 1000 Normal closure, 1001 Going
  away, 1002 Protocol error, 1003 Unsupported data, 1005 No status received, 1006 Abnormal
  closure - check server logs, 1007 Invalid frame payload data, 1008 Policy violation,
  1009 Message too big, 1010 Mandatory extension missing, 1011 Internal server error,
  1012 Service restart, 1013 Try again later, 1014 Bad gateway, 1015 TLS handshake
  failure. To 1004 and to every code outside the range it gives "Unknown reason". The
  status shows the reason when the handler schedules no reconnect: "Connection failed
  (reason)" when the attempt count of the handler has reached 5, "Disconnected (reason)"
  otherwise; the hook that connects to a host shows the two without a reason.

  In both hooks the handler schedules a reconnect, 3000 ms later, exactly when the event
  is not flagged clean and the attempt count of the handler is below 5. The close code has
  no part in it: a close flagged clean schedules none whatever its code, and a close with
  the code 1000 that is not flagged clean schedules one while the count is below 5.
\<close>

theorem close_reasons_and_clean_closes:
  "map closeReason
     [1000, 1001, 1002, 1003, 1004, 1005, 1006, 1007, 1008, 1009, 1010, 1011, 1012, 1013,
      1014, 1015] =
     [''Normal closure'', ''Going away'', ''Protocol error'', ''Unsupported data'',
      ''Unknown reason'', ''No status received'', ''Abnormal closure - check server logs'',
      ''Invalid frame payload data'', ''Policy violation'', ''Message too big'',
      ''Mandatory extension missing'', ''Internal server error'', ''Service restart'',
      ''Try again later'', ''Bad gateway'', ''TLS handshake failure''] \<and>
   distinct (map closeReason
     [1000, 1001, 1002, 1003, 1004, 1005, 1006, 1007, 1008, 1009, 1010, 1011, 1012, 1013,
      1014, 1015]) \<and>
   (c < 1000 \<or> 1015 < c \<longrightarrow> closeReason c = ''Unknown reason'') \<and>
   status (onclose_gateway k event s) =
     (if \<not> wasClean event \<and> k < 5 then ''Reconnecting ('' @ string_of_nat (k + 1) @ ''/5)...''
      else if 5 \<le> k then ''Connection failed ('' @ closeReason (code event) @ '')''
      else ''Disconnected ('' @ closeReason (code event) @ '')'') \<and>
   status (onclose_host k event s) =
     (if \<not> wasClean event \<and> k < 5 then ''Reconnecting ('' @ string_of_nat (k + 1) @ ''/5)...''
      else if 5 \<le> k then ''Connection failed''
      else ''Disconnected'') \<and>
   timers (onclose_gateway k event s) =
     timers s @ (if \<not> wasClean event \<and> k < 5
                 then [\<lparr>delay = 3000, connect_of = k, of_effect = False\<rparr>] else []) \<and>
   timers (onclose_host k event s) =
     timers s @ (if \<not> wasClean event \<and> k < 5
                 then [\<lparr>delay = 3000, connect_of = k, of_effect = False\<rparr>] else []) \<and>
   (wasClean event \<longrightarrow>
      timers (onclose_gateway k event s) = timers s \<and>
      timers (onclose_host k event s) = timers s) \<and>
   (\<not> wasClean event \<and> k < 5 \<longrightarrow>
      timers (onclose_gateway k (event\<lparr>code := 1000\<rparr>) s) =
        timers s @ [\<lparr>delay = 3000, connect_of = k, of_effect = False\<rparr>] \<and>
      timers (onclose_host k (event\<lparr>code := 1000\<rparr>) s) =
        timers s @ [\<lparr>delay = 3000, connect_of = k, of_effect = False\<rparr>]) \<and>
   timers (onclose_gateway k (event\<lparr>code := c\<rparr>) s) = timers (onclose_gateway k event s) \<and>
   timers (onclose_host k (event\<lparr>code := c\<rparr>) s) = timers (onclose_host k event s)"
proof -
  have table: "map closeReason
     [1000, 1001, 1002, 1003, 1004, 1005, 1006, 1007, 1008, 1009, 1010, 1011, 1012, 1013,
      1014, 1015] =
     [''Normal closure'', ''Going away'', ''Protocol error'', ''Unsupported data'',
      ''Unknown reason'', ''No status received'', ''Abnormal closure - check server logs'',
      ''Invalid frame payload data'', ''Policy violation'', ''Message too big'',
      ''Mandatory extension missing'', ''Internal server error'', ''Service restart'',
      ''Try again later'', ''Bad gateway'', ''TLS handshake failure'']"
    by (simp add: closeReason_def)
  have own: "distinct (map closeReason
     [1000, 1001, 1002, 1003, 1004, 1005, 1006, 1007, 1008, 1009, 1010, 1011, 1012, 1013,
      1014, 1015])"
    unfolding table by simp
  have other: "c < 1000 \<or> 1015 < c \<longrightarrow> closeReason c = ''Unknown reason''"
    by (auto simp: closeReason_def)
  have five: "digit 5 = CHR ''5''"
    by (simp add: digit_def)
  have handlers:
    "status (onclose_gateway k event s) =
     (if \<not> wasClean event \<and> k < 5 then ''Reconnecting ('' @ string_of_nat (k + 1) @ ''/5)...''
      else if 5 \<le> k then ''Connection failed ('' @ closeReason (code event) @ '')''
      else ''Disconnected ('' @ closeReason (code event) @ '')'')"
    "status (onclose_host k event s) =
     (if \<not> wasClean event \<and> k < 5 then ''Reconnecting ('' @ string_of_nat (k + 1) @ ''/5)...''
      else if 5 \<le> k then ''Connection failed''
      else ''Disconnected'')"
    "timers (onclose_gateway k e s) =
     timers s @ (if \<not> wasClean e \<and> k < 5
                 then [\<lparr>delay = 3000, connect_of = k, of_effect = False\<rparr>] else [])"
    "timers (onclose_host k e s) =
     timers s @ (if \<not> wasClean e \<and> k < 5
                 then [\<lparr>delay = 3000, connect_of = k, of_effect = False\<rparr>] else [])" for e
    by (simp_all add: onclose_gateway_def onclose_host_def Let_def five
          maxReconnectAttempts_def reconnectInterval_def)
  show ?thesis
    by (intro conjI table own other handlers(1,2)) (simp_all add: handlers(3,4))
qed

theorem close_reasons_and_clean_closes_witness:
  "closeReason 999 = ''Unknown reason'' \<and>
   closeReason 4000 = ''Unknown reason'' \<and>
   status (onclose_gateway 2 \<lparr>wasClean = True, code = 1011\<rparr> demo_open) =
     ''Disconnected (Internal server error)'' \<and>
   timers (onclose_gateway 2 \<lparr>wasClean = True, code = 1011\<rparr> demo_open) = [] \<and>
   status (onclose_gateway 5 \<lparr>wasClean = False, code = 1006\<rparr> demo_open) =
     ''Connection failed (Abnormal closure - check server logs)'' \<and>
   timers (onclose_gateway 5 \<lparr>wasClean = False, code = 1006\<rparr> demo_open) = [] \<and>
   timers (onclose_gateway 2 \<lparr>wasClean = False, code = 1000\<rparr> demo_open) =
     [\<lparr>delay = 3000, connect_of = 2, of_effect = False\<rparr>] \<and>
   timers (onclose_host 2 \<lparr>wasClean = False, code = 1000\<rparr> demo_open) =
     [\<lparr>delay = 3000, connect_of = 2, of_effect = False\<rparr>]"
  using close_reasons_and_clean_closes [of 999 2 "\<lparr>wasClean = True, code = 1011\<rparr>" demo_open]
    close_reasons_and_clean_closes [of 4000 5 "\<lparr>wasClean = False, code = 1006\<rparr>" demo_open]
    close_reasons_and_clean_closes [of 1000 2 "\<lparr>wasClean = False, code = 1006\<rparr>" demo_open]
  by (simp add: closeReason_def demo_open_def)

section \<open>Properties of the chat component\<close>

lemma sendTextQuery_interrupts_first:
  assumes "query \<noteq> []" "isConnected (webSocket c)" "isPlaying (audioPlayback c)"
    and "socketRef (webSocket c) = Some i" "i < length (sockets (webSocket c))"
    and "readyState (sockets (webSocket c) ! i) = OPEN"
  shows "sent (sockets (webSocket (sendTextQuery E query c)) ! i) =
           sent (sockets (webSocket c) ! i) @
             [JSON_stringify E Interrupt_speech, JSON_stringify E (Text_query query)] \<and>
         \<not> isPlaying (audioPlayback (sendTextQuery E query c)) \<and>
         pcmQueueRef (audioPlayback (sendTextQuery E query c)) = [] \<and>
         \<not> isReceivingPcmRef (audioPlayback (sendTextQuery E query c))"
  using assms
  by (simp add: sendTextQuery_def addMessage_def sendMessage_def current_readyState_def
        socket_send_def interruptPlayback_def Let_def split: option.splits)

subsection \<open>Claim C7: interrupting before a new action\<close>

text \<open>
  Claim C7: when the user submits a text query or toggles the microphone while playback
  is active, the client first interrupts the local playback and sends exactly one
  \<open>interrupt_speech\<close> frame before the frame of the new action.

  \<open>sendTextQuery\<close> does so (\<open>sendTextQuery_interrupts_first\<close>). The microphone button
  does not: its handler is \<open>toggleRecording\<close>, which starts or stops the recorder and
  touches neither the playback nor the socket. With a chunk playing, a click on the button
  leaves it playing and sends no frame. The legacy page's \<open>toggleRecording\<close> calls
  \<open>interruptSpeech\<close> first.
\<close>

theorem toggleRecording_does_not_interrupt:
  "audioPlayback (TapToSpeak_onClick mediaDevices c) = audioPlayback c \<and>
   webSocket (TapToSpeak_onClick mediaDevices c) = webSocket c \<and>
   isPlaying (audioPlayback (TapToSpeak_onClick True demo_chat)) \<and>
   frames_written (webSocket (TapToSpeak_onClick True demo_chat)) = [''ping''] \<and>
   getUserMedia_requests (audioRecording (TapToSpeak_onClick True demo_chat)) = 1 \<and>
   \<not> isPlaying (audioPlayback (sendTextQuery demo_env ''Count customers'' demo_chat)) \<and>
   frames_written (webSocket (sendTextQuery demo_env ''Count customers'' demo_chat)) =
     [''ping'', ''interrupt_speech'', ''text_query Count customers'']"
  by (simp add: TapToSpeak_onClick_def toggleRecording_def startRecording_def
        sendTextQuery_def addMessage_def sendMessage_def current_readyState_def
        socket_send_def interruptPlayback_def frames_written_def Let_def
        demo_chat_def demo_open_def demo_playing_def demo_idle_def demo_env_def)

section \<open>The legacy client's reconnect counter\<close>

lemma onclose_legacy_rule:
  "l_timers (onclose_legacy event s) =
     l_timers s @ (if \<not> wasClean event \<and> l_reconnectAttempts s < 5 then [3000] else []) \<and>
   l_reconnectAttempts (onclose_legacy event s) =
     (if \<not> wasClean event \<and> l_reconnectAttempts s < 5
      then l_reconnectAttempts s + 1 else l_reconnectAttempts s)"
  by (simp add: onclose_legacy_def stopRecording_legacy_def Let_def maxReconnectAttempts_def
        reconnectInterval_def)

lemma closes_legacy_snoc:
  "closes_legacy s (events @ [event]) = onclose_legacy event (closes_legacy s events)"
  by (simp add: closes_legacy_def)

lemma closes_legacy_counter:
  "l_reconnectAttempts s \<le> l_reconnectAttempts (closes_legacy s events) \<and>
   (l_reconnectAttempts s \<le> 5 \<longrightarrow> l_reconnectAttempts (closes_legacy s events) \<le> 5) \<and>
   (5 \<le> l_reconnectAttempts s \<longrightarrow> l_timers (closes_legacy s events) = l_timers s) \<and>
   ((\<forall>event\<in>set events. wasClean event) \<longrightarrow> l_timers (closes_legacy s events) = l_timers s) \<and>
   ((\<forall>event\<in>set events. \<not> wasClean event) \<and> l_reconnectAttempts s = 0 \<longrightarrow>
      l_reconnectAttempts (closes_legacy s events) = min (length events) 5 \<and>
      l_timers (closes_legacy s events) = l_timers s @ replicate (min (length events) 5) 3000)"
proof (induction events rule: rev_induct)
  case Nil
  then show ?case by (simp add: closes_legacy_def)
next
  case (snoc event events)
  then show ?case
    by (auto simp: closes_legacy_snoc onclose_legacy_rule min_def
          simp flip: replicate_append_same)
qed

section \<open>Properties of the PCM conversion\<close>

lemma and_ff: "(x::int) AND 0xff = x mod 256"
proof -
  have "(0xff :: int) = mask 8" by (simp add: mask_eq_exp_minus_1)
  then have "x AND 0xff = take_bit 8 x" by (simp only: take_bit_eq_mask)
  then show ?thesis by (simp add: take_bit_eq_mod)
qed

lemma and_7fff: "(x::int) AND 0x7fff = x mod 32768"
proof -
  have "(0x7fff :: int) = mask 15" by (simp add: mask_eq_exp_minus_1)
  then have "x AND 0x7fff = take_bit 15 x" by (simp only: take_bit_eq_mask)
  then show ?thesis by (simp add: take_bit_eq_mod)
qed

lemma or_shift:
  assumes "0 \<le> a" "a < 256"
  shows "(a::int) OR push_bit 8 b = a + 256 * b"
proof -
  have a: "take_bit 8 a = a" using assms by (simp add: take_bit_int_eq_self)
  have "take_bit 8 a + push_bit 8 b = take_bit 8 a OR push_bit 8 b"
    by (rule disjunctive_add) (auto simp: bit_simps)
  then show ?thesis by (simp add: a push_bit_eq_mult)
qed

lemma pcm_sample_bytes:
  "pcm_sample (word_of_int v) (word_of_int (v div 256)) = v mod 65536"
proof -
  have lo: "uint (word_of_int v :: 8 word) = v mod 256"
    by (simp add: uint_word_of_int)
  have hi: "uint (word_of_int (v div 256) :: 8 word) = v div 256 mod 256"
    by (simp add: uint_word_of_int)
  have "pcm_sample (word_of_int v) (word_of_int (v div 256)) =
          v mod 256 + 256 * (v div 256 mod 256)"
    unfolding pcm_sample_def lo hi and_ff
    by (simp add: or_shift)
  also have "\<dots> = v mod 65536"
    using zmod_zmult2_eq [of 256 v 256] by simp
  finally show ?thesis .
qed

lemma decode_nonneg:
  assumes "0 \<le> v" "v \<le> 32767"
  shows "sample_to_float (v mod 65536) = real_of_int v / 32767"
  using assms by (simp add: sample_to_float_def)

lemma mod_wrap:
  fixes a m :: int
  assumes "0 \<le> a + m" "a + m < m"
  shows "a mod m = a + m"
proof -
  have "(a + m) mod m = a + m"
    by (rule mod_pos_pos_trivial) (use assms in auto)
  then show ?thesis by simp
qed

lemma decode_neg:
  assumes "- 32768 \<le> v" "v < 0"
  shows "sample_to_float (v mod 65536) = real_of_int v / 32768"
proof -
  have m: "v mod 65536 = v + 65536"
    by (rule mod_wrap) (use assms in auto)
  have "(v + 65536) mod 32768 = (v + 2 * 32768) mod 32768" by simp
  also have "\<dots> = v mod 32768" by (rule mod_mult_self1)
  also have "\<dots> = v + 32768" by (rule mod_wrap) (use assms in auto)
  finally have "(v + 65536) mod 32768 = v + 32768" .
  then show ?thesis
    using assms by (simp add: sample_to_float_def m and_7fff field_simps)
qed

lemma decode_sample_eq: "decode_sample v = sample_to_float (v mod 65536)"
  by (simp only: decode_sample_def pcm_sample_bytes)

text \<open>
  The decoder on the two bytes of a 16-bit integer: a negative one is divided by
  \<open>0x8000\<close>, the others by \<open>0x7fff\<close>.
\<close>

lemma decode_sample_int16:
  assumes "- 32768 \<le> v" "v \<le> 32767"
  shows "decode_sample v = (if v < 0 then real_of_int v / 32768 else real_of_int v / 32767)"
proof (cases "v < 0")
  case True
  with assms show ?thesis by (simp only: decode_sample_eq decode_neg if_True)
next
  case False
  with assms show ?thesis by (simp only: decode_sample_eq decode_nonneg if_False)
qed

lemma pcm_samples_encode:
  "pcm_samples (encode_pcm q xs) = map (\<lambda>x. decode_sample (q x)) xs"
  by (induction xs) (simp_all add: encode_pcm_def int16_bytes_def decode_sample_def)

lemma length_encode_pcm: "length (encode_pcm q xs) = 2 * length xs"
  by (induction xs) (simp_all add: encode_pcm_def int16_bytes_def)


subsection \<open>Claim C5: the round trip of PCM\<close>




text \<open>An encoder with the scale 32767 that truncates does not keep the bound either.\<close>

lemma truncating_encoder_exceeds_the_bound:
  "\<bar>pcm_samples (encode_pcm (\<lambda>x. \<lfloor>x * 32767\<rfloor>) [305185 / 10000000000]) ! 0
      - 305185 / 10000000000\<bar> > 1 / 32768"
  by (simp add: pcm_samples_encode decode_sample_int16)

end
